theory Spec2Isabelle
  imports Complex_Main
begin

section \<open>The Lasso path driver of \<^verbatim>\<open>examples/cpp_sp/lasso_path.cpp\<close>\<close>

text \<open>
  The file holds two reductions, \<^verbatim>\<open>MaxDiff\<close> and \<^verbatim>\<open>Asum\<close>, and the driver
  \<^verbatim>\<open>LassoPath<T>\<close>, instantiated for \<^verbatim>\<open>float\<close> and \<^verbatim>\<open>double\<close>.

  Conventions of the embedding.
  \<^item> Values of the template type \<^verbatim>\<open>T\<close> are real numbers and the arithmetic of the driver
    is read as exact arithmetic, with three exceptions where \<^verbatim>\<open>T\<close> itself matters. The
    constant \<^verbatim>\<open>std::numeric_limits<T>::max()\<close> is kept per instantiation. The schedule
    value \<open>\<lambda>\<close>, which the source computes through \<^verbatim>\<open>std::log\<close> also at 0, is a value of
    \<open>T_val\<close>: a real number, an infinity or NaN. And next to the exact reductions there
    are \<open>MaxDiff_T\<close> and \<open>Asum_T\<close>, the same loops with every subtraction and addition
    rounded to the precision of \<^verbatim>\<open>T\<close>. Overflow to infinity is outside the model.
  \<^item> A \<^verbatim>\<open>std::vector\<close> is a list, \<^verbatim>\<open>v[i]\<close> is \<open>v ! i\<close>. The source indexes without
    bounds checks; every theorem that depends on an index being in range says so.
  \<^item> The sizes \<^verbatim>\<open>m\<close>, \<^verbatim>\<open>n\<close> and the entries of \<^verbatim>\<open>row_ptr\<close>, \<^verbatim>\<open>col_ind\<close> are natural
    numbers (the vectors are allocated with these sizes and indexed by them).
  \<^item> A \<^verbatim>\<open>for\<close> loop without \<^verbatim>\<open>break\<close> that updates an accumulator is a \<open>fold\<close> over
    its index range \<open>[lo..<hi]\<close>; the path loop, which has a \<^verbatim>\<open>break\<close>, is a recursive
    function on the loop counter.
  \<^item> The random problem generator (\<^verbatim>\<open>MatGenApprox\<close>, the normal distribution), the
    timer and \<^verbatim>\<open>printf\<close> are not modelled: the matrix and \<open>b\<close> are inputs of the model,
    and the model returns the final program state instead of the elapsed time.
\<close>

subsection \<open>The reductions\<close>

text \<open>
  \<^verbatim>\<open>T max_diff = 0; for (i = 0; i < v1->size(); ++i)
       max_diff = std::max(max_diff, std::abs((*v1)[i] - (*v2)[i]));\<close>
  The loop runs over the indices of \<open>v1\<close> and reads \<open>v2\<close> at the same index, so it needs
  \<open>length v1 \<le> length v2\<close>.
\<close>

definition MaxDiff :: "real list \<Rightarrow> real list \<Rightarrow> real" where
  "MaxDiff v1 v2 =
     fold (\<lambda>i max_diff. max max_diff \<bar>v1 ! i - v2 ! i\<bar>) [0..<length v1] 0"

text \<open>
  \<^verbatim>\<open>T asum = 0; for (i = 0; i < v->size(); ++i) asum += std::abs((*v)[i]);\<close>
  This is the loop in exact arithmetic, as is \<open>MaxDiff\<close> above; \<open>MaxDiff_T\<close> and \<open>Asum_T\<close>
  below are the two loops in the arithmetic of \<^verbatim>\<open>T\<close>.
\<close>

definition Asum :: "real list \<Rightarrow> real" where
  "Asum v = fold (\<lambda>i asum. asum + \<bar>v ! i\<bar>) [0..<length v] 0"

text \<open>The condition of the \<^verbatim>\<open>if\<close> on line 94: \<^verbatim>\<open>MaxDiff(&x, &x_last) < 1e-3 * Asum(&x)\<close>.\<close>

definition stop_test :: "real list \<Rightarrow> real list \<Rightarrow> bool" where
  "stop_test x x_last \<longleftrightarrow> MaxDiff x x_last < (1 / 1000) * Asum x"




subsection \<open>The reductions in the arithmetic of \<open>T\<close>\<close>

text \<open>The two instantiations of the template, lines 103 and 104.\<close>

datatype T_kind = T_float | T_double







subsection \<open>Values of \<open>T\<close> that need not be real numbers\<close>

text \<open>
  A value of \<^verbatim>\<open>T\<close> in the computation of \<open>\<lambda>\<close>: a real number, an infinity, or NaN. The
  operations follow IEEE 754 on the infinities and NaN and are exact on the real numbers;
  zero is the positive zero.
\<close>

datatype T_val = Fin real | PosInf | NegInf | NaN

text \<open>\<^verbatim>\<open>std::log\<close>: minus infinity at 0, NaN below 0.\<close>

fun log_T :: "T_val \<Rightarrow> T_val" where
  "log_T (Fin x) = (if 0 < x then Fin (ln x) else if x = 0 then NegInf else NaN)"
| "log_T PosInf = PosInf"
| "log_T NegInf = NaN"
| "log_T NaN = NaN"

text \<open>\<^verbatim>\<open>std::exp\<close>: 0 at minus infinity.\<close>

fun exp_T :: "T_val \<Rightarrow> T_val" where
  "exp_T (Fin x) = Fin (exp x)"
| "exp_T PosInf = PosInf"
| "exp_T NegInf = Fin 0"
| "exp_T NaN = NaN"

text \<open>The product: an infinity times 0 is NaN.\<close>

fun times_T :: "T_val \<Rightarrow> T_val \<Rightarrow> T_val" where
  "times_T NaN b = NaN"
| "times_T a NaN = NaN"
| "times_T (Fin x) (Fin y) = Fin (x * y)"
| "times_T (Fin x) PosInf = (if x = 0 then NaN else if 0 < x then PosInf else NegInf)"
| "times_T (Fin x) NegInf = (if x = 0 then NaN else if 0 < x then NegInf else PosInf)"
| "times_T PosInf (Fin y) = (if y = 0 then NaN else if 0 < y then PosInf else NegInf)"
| "times_T NegInf (Fin y) = (if y = 0 then NaN else if 0 < y then NegInf else PosInf)"
| "times_T PosInf PosInf = PosInf"
| "times_T PosInf NegInf = NegInf"
| "times_T NegInf PosInf = NegInf"
| "times_T NegInf NegInf = PosInf"

text \<open>The sum: the two infinities add up to NaN.\<close>

fun plus_T :: "T_val \<Rightarrow> T_val \<Rightarrow> T_val" where
  "plus_T NaN b = NaN"
| "plus_T a NaN = NaN"
| "plus_T (Fin x) (Fin y) = Fin (x + y)"
| "plus_T (Fin x) PosInf = PosInf"
| "plus_T (Fin x) NegInf = NegInf"
| "plus_T PosInf (Fin y) = PosInf"
| "plus_T NegInf (Fin y) = NegInf"
| "plus_T PosInf PosInf = PosInf"
| "plus_T PosInf NegInf = NaN"
| "plus_T NegInf PosInf = NaN"
| "plus_T NegInf NegInf = NegInf"

text \<open>The quotient: \<open>0 / 0\<close> and an infinity over an infinity are NaN.\<close>

fun divide_T :: "T_val \<Rightarrow> T_val \<Rightarrow> T_val" where
  "divide_T NaN b = NaN"
| "divide_T a NaN = NaN"
| "divide_T (Fin x) (Fin y) =
     (if y \<noteq> 0 then Fin (x / y)
      else if x = 0 then NaN else if 0 < x then PosInf else NegInf)"
| "divide_T (Fin x) PosInf = Fin 0"
| "divide_T (Fin x) NegInf = Fin 0"
| "divide_T PosInf (Fin y) = (if 0 \<le> y then PosInf else NegInf)"
| "divide_T NegInf (Fin y) = (if 0 \<le> y then NegInf else PosInf)"
| "divide_T PosInf PosInf = NaN"
| "divide_T PosInf NegInf = NaN"
| "divide_T NegInf PosInf = NaN"
| "divide_T NegInf NegInf = NaN"

subsection \<open>The data of the driver\<close>

text \<open>
  \<^verbatim>\<open>Sparse<T, int, ROW> A_(val.data(), row_ptr.data(), col_ind.data(), nnz)\<close>: the
  compressed-row matrix is the three arrays and the number of nonzeros.
\<close>

record Sparse =
  val :: "real list"
  row_ptr :: "nat list"
  col_ind :: "nat list"
  nnz :: nat

text \<open>
  The well-formedness of a compressed-row matrix with \<open>m\<close> rows and \<open>n\<close> columns, together
  with a right-hand side of length \<open>m\<close>: the reads of lines 58 to 62 are in range.
\<close>

definition csr_wf :: "nat \<Rightarrow> nat \<Rightarrow> Sparse \<Rightarrow> real list \<Rightarrow> bool" where
  "csr_wf m n A b \<longleftrightarrow>
     length (row_ptr A) = m + 1 \<and> row_ptr A ! 0 = 0 \<and> row_ptr A ! m = nnz A \<and>
     (\<forall>i\<in>{..<m}. row_ptr A ! i \<le> row_ptr A ! (i + 1)) \<and>
     nnz A \<le> length (col_ind A) \<and> nnz A \<le> length (val A) \<and>
     (\<forall>j\<in>{..<nnz A}. col_ind A ! j < n) \<and>
     length b = m"

datatype Function = kAbs | kSquare

text \<open>
  Modelled from the spec: the declaration of the function descriptor (\<^verbatim>\<open>FunctionObj\<close>, from
  \<^verbatim>\<open>pogs.h\<close>) is not part of the sources. The specification gives it a kind, a scale and an
  offset. The driver constructs it as \<^verbatim>\<open>(kSquare, 1, b[i])\<close> and as \<^verbatim>\<open>(kAbs)\<close> and writes
  the member \<^verbatim>\<open>c\<close>, which the specification calls the scale; the specification's row
  descriptor has scale 1 and offset \<open>b[row]\<close>. A descriptor built from the kind alone gets
  the placeholder scale 1 and the offset 0. The scale is a value of \<open>T_val\<close>, since the
  driver stores \<open>\<lambda>\<close> there.
\<close>

record FunctionObj =
  kind :: Function
  scale :: T_val
  offset :: real

definition FunctionObj_of_kind :: "Function \<Rightarrow> FunctionObj" where
  "FunctionObj_of_kind k = \<lparr>kind = k, scale = Fin 1, offset = 0\<rparr>"

text \<open>
  \<^verbatim>\<open>PogsData<T, Sparse<T, int, ROW>> pogs_data(A_, m, n)\<close> with its members \<^verbatim>\<open>x\<close>, \<^verbatim>\<open>y\<close>,
  \<^verbatim>\<open>f\<close>, \<^verbatim>\<open>g\<close>. The members \<^verbatim>\<open>x\<close> and \<^verbatim>\<open>y\<close> point to the storage of the driver's vectors
  \<^verbatim>\<open>x\<close> and \<^verbatim>\<open>y\<close>, so the record holds their contents: the driver's \<^verbatim>\<open>x\<close> and
  \<^verbatim>\<open>pogs_data.x\<close> are one buffer. The fields carry the prefix \<open>pd_\<close>.
\<close>

record PogsData =
  pd_A :: Sparse
  pd_m :: nat
  pd_n :: nat
  pd_x :: "real list"
  pd_y :: "real list"
  pd_f :: "FunctionObj list"
  pd_g :: "FunctionObj list"

text \<open>
  Modelled from the spec: the solver \<^verbatim>\<open>Solve\<close> (from \<^verbatim>\<open>pogs.h\<close>) is not part of the
  sources. By the specification it reads the matrix and the descriptors, and reads and
  writes \<open>x\<close> and \<open>y\<close>. It is a parameter of the model: a function from the problem data
  to the values it writes to \<open>x\<close> and to \<open>y\<close>.
\<close>

type_synonym solver = "PogsData \<Rightarrow> real list \<times> real list"

text \<open>
  Writing through a pointer into a vector of fixed size: the cells the solver gives a value
  for are overwritten, the size of the buffer stays.
\<close>

definition write_buf :: "real list \<Rightarrow> real list \<Rightarrow> real list" where
  "write_buf buf new = take (length buf) new @ drop (length new) buf"

definition run_Solve :: "solver \<Rightarrow> PogsData \<Rightarrow> PogsData" where
  "run_Solve Solve pd =
     pd\<lparr>pd_x := write_buf (pd_x pd) (fst (Solve pd)),
        pd_y := write_buf (pd_y pd) (snd (Solve pd))\<rparr>"

text \<open>\<^verbatim>\<open>std::numeric_limits<T>::max()\<close>: the largest finite value of the IEEE format.\<close>

fun numeric_limits_max :: "T_kind \<Rightarrow> real" where
  "numeric_limits_max T_float = (2 ^ 24 - 1) * 2 ^ 104"
| "numeric_limits_max T_double = (2 ^ 53 - 1) * 2 ^ 971"

subsection \<open>\<open>\<lambda>\<^sub>m\<^sub>a\<^sub>x\<close>, lines 57 to 66\<close>

text \<open>
  \<^verbatim>\<open>for (j = row_ptr[i]; j < row_ptr[i + 1]; ++j) u[col_ind[j]] += val[j] * b[i];\<close>
\<close>

definition u_row :: "Sparse \<Rightarrow> real list \<Rightarrow> nat \<Rightarrow> real list \<Rightarrow> real list" where
  "u_row A b i u =
     fold (\<lambda>j u. u[col_ind A ! j := u ! (col_ind A ! j) + val A ! j * b ! i])
       [row_ptr A ! i ..< row_ptr A ! (i + 1)] u"

text \<open>\<^verbatim>\<open>std::vector<T> u(n, 0); for (i = 0; i < m; ++i) ...\<close>\<close>

definition compute_u :: "nat \<Rightarrow> nat \<Rightarrow> Sparse \<Rightarrow> real list \<Rightarrow> real list" where
  "compute_u m n A b = fold (u_row A b) [0..<m] (replicate n 0)"

text \<open>
  \<^verbatim>\<open>T lambda_max = 0; for (i = 0; i < n; ++i)
       lambda_max = std::max(lambda_max, std::abs(u[i]));\<close>
\<close>

definition compute_lambda_max :: "nat \<Rightarrow> real list \<Rightarrow> real" where
  "compute_lambda_max n u = fold (\<lambda>i lambda_max. max lambda_max \<bar>u ! i\<bar>) [0..<n] 0"

text \<open>
  The specification's \<open>u = A\<^sup>t b\<close>: entry \<open>c\<close> is the sum of \<open>v \<cdot> b[i]\<close> over the nonzeros
  \<open>(row i, column c, value v)\<close>.
\<close>

definition spec_Atb :: "nat \<Rightarrow> nat \<Rightarrow> Sparse \<Rightarrow> real list \<Rightarrow> real list" where
  "spec_Atb m n A b =
     map (\<lambda>c. \<Sum>i<m. \<Sum>j = row_ptr A ! i ..< row_ptr A ! (i + 1).
                 if col_ind A ! j = c then val A ! j * b ! i else 0) [0..<n]"

subsection \<open>The schedule, lines 84 to 86\<close>

definition nlambda :: nat where
  "nlambda = 100"

text \<open>
  \<^verbatim>\<open>std::exp((std::log(lambda_max) * (nlambda - 1 - i) +
       static_cast<T>(1e-2) * std::log(lambda_max) * i) / (nlambda - 1))\<close>
  The counter is below \<open>nlambda\<close> in the loop, so the unsigned subtraction does not wrap.
  The unsigned operands are converted to \<^verbatim>\<open>T\<close>; the product \<open>1e-2 * log * i\<close> associates to
  the left.
\<close>

definition lambda_at :: "real \<Rightarrow> nat \<Rightarrow> T_val" where
  "lambda_at lambda_max i =
     exp_T (divide_T
       (plus_T (times_T (log_T (Fin lambda_max)) (Fin (real (nlambda - 1 - i))))
               (times_T (times_T (Fin (1 / 100)) (log_T (Fin lambda_max))) (Fin (real i))))
       (Fin (real (nlambda - 1))))"

subsection \<open>The path loop, lines 84 to 97\<close>

text \<open>
  \<^verbatim>\<open>for (i = 0; i < n; ++i) pogs_data.g[i].c = lambda;\<close>
  The bound is the driver's \<open>n\<close>, the value \<open>pogs_data\<close> was constructed with.
\<close>

definition set_penalty :: "T_val \<Rightarrow> PogsData \<Rightarrow> PogsData" where
  "set_penalty lambda pd =
     pd\<lparr>pd_g := fold (\<lambda>i g. g[i := (g ! i)\<lparr>scale := lambda\<rparr>]) [0..<pd_n pd] (pd_g pd)\<rparr>"

text \<open>
  One record per executed loop body, kept in a log that the program does not have: the
  \<open>\<lambda>\<close> of the step, the problem data the solver was invoked on, the contents of \<open>x\<close> after
  the solve, the contents of \<open>x_last\<close> that the test read, and the value of the test.
\<close>

record step_rec =
  st_lambda :: T_val
  st_call :: PogsData
  st_x :: "real list"
  st_x_last :: "real list"
  st_stop :: bool

record loop_state =
  pogs_data :: PogsData
  x_last :: "real list"
  steps :: "step_rec list"

function path_loop :: "solver \<Rightarrow> real \<Rightarrow> nat \<Rightarrow> loop_state \<Rightarrow> loop_state" where
  "path_loop Solve lambda_max i s =
     (if i < nlambda then
        let lambda = lambda_at lambda_max i;
            pd1 = set_penalty lambda (pogs_data s);
            pd2 = run_Solve Solve pd1;
            stop = stop_test (pd_x pd2) (x_last s);
            s1 = s\<lparr>pogs_data := pd2,
                   steps := steps s @
                     [\<lparr>st_lambda = lambda, st_call = pd1, st_x = pd_x pd2,
                       st_x_last = x_last s, st_stop = stop\<rparr>]\<rparr>
        in if stop then s1
           else path_loop Solve lambda_max (i + 1) (s1\<lparr>x_last := pd_x pd2\<rparr>)
      else s)"
  by pat_completeness auto
termination
  by (relation "measure (\<lambda>(Solve, lambda_max, i, s). nlambda - i)") auto

subsection \<open>The driver, lines 36 to 101\<close>

text \<open>\<^verbatim>\<open>for (i = 0; i < m; ++i) pogs_data.f.emplace_back(kSquare, 1, b[i]);\<close>\<close>

definition build_f :: "nat \<Rightarrow> real list \<Rightarrow> FunctionObj list" where
  "build_f m b = fold (\<lambda>i f. f @ [\<lparr>kind = kSquare, scale = Fin 1, offset = b ! i\<rparr>]) [0..<m] []"

text \<open>\<^verbatim>\<open>for (i = 0; i < n; ++i) pogs_data.g.emplace_back(kAbs);\<close>\<close>

definition build_g :: "nat \<Rightarrow> FunctionObj list" where
  "build_g n = fold (\<lambda>i g. g @ [FunctionObj_of_kind kAbs]) [0..<n] []"

definition LassoPath_lambda_max :: "nat \<Rightarrow> nat \<Rightarrow> Sparse \<Rightarrow> real list \<Rightarrow> real" where
  "LassoPath_lambda_max m n A b = compute_lambda_max n (compute_u m n A b)"

definition LassoPath_init :: "T_kind \<Rightarrow> nat \<Rightarrow> nat \<Rightarrow> Sparse \<Rightarrow> real list \<Rightarrow> loop_state" where
  "LassoPath_init T m n A b =
     \<lparr>pogs_data = \<lparr>pd_A = A, pd_m = m, pd_n = n,
                   pd_x = replicate n 0, pd_y = replicate m 0,
                   pd_f = build_f m b, pd_g = build_g n\<rparr>,
      x_last = replicate n (numeric_limits_max T),
      steps = []\<rparr>"

definition LassoPath ::
  "T_kind \<Rightarrow> solver \<Rightarrow> nat \<Rightarrow> nat \<Rightarrow> Sparse \<Rightarrow> real list \<Rightarrow> loop_state" where
  "LassoPath T Solve m n A b =
     path_loop Solve (LassoPath_lambda_max m n A b) 0 (LassoPath_init T m n A b)"

subsection \<open>The log of a run\<close>

text \<open>
  What entry \<open>j\<close> of the log of a run must be, for a loop started on the problem data
  \<open>pd0\<close> with \<open>xl0\<close> in \<open>x_last\<close>: the \<open>\<lambda>\<close> of step \<open>j\<close>; the solver invoked on the data
  left by the previous solve (on \<open>pd0\<close> at step 0) after the penalty update; \<open>x\<close> as that
  solve left it; \<open>x_last\<close> holding the \<open>x\<close> of the previous step (\<open>xl0\<close> at step 0); and
  the test evaluated on these two vectors.
\<close>

definition step_ok ::
  "solver \<Rightarrow> real \<Rightarrow> PogsData \<Rightarrow> real list \<Rightarrow> step_rec list \<Rightarrow> nat \<Rightarrow> bool" where
  "step_ok Solve lambda_max pd0 xl0 t j \<longleftrightarrow>
     st_lambda (t ! j) = lambda_at lambda_max j \<and>
     st_call (t ! j) = set_penalty (lambda_at lambda_max j)
                         (if j = 0 then pd0 else run_Solve Solve (st_call (t ! (j - 1)))) \<and>
     st_x (t ! j) = pd_x (run_Solve Solve (st_call (t ! j))) \<and>
     st_x_last (t ! j) = (if j = 0 then xl0 else st_x (t ! (j - 1))) \<and>
     st_stop (t ! j) = stop_test (st_x (t ! j)) (st_x_last (t ! j))"

text \<open>The invariant at the head of the loop, when the counter is \<open>i\<close>.\<close>

definition loop_inv ::
  "solver \<Rightarrow> real \<Rightarrow> PogsData \<Rightarrow> real list \<Rightarrow> nat \<Rightarrow> loop_state \<Rightarrow> bool" where
  "loop_inv Solve lambda_max pd0 xl0 i s \<longleftrightarrow>
     length (steps s) = i \<and>
     (\<forall>j<i. step_ok Solve lambda_max pd0 xl0 (steps s) j \<and> \<not> st_stop (steps s ! j)) \<and>
     x_last s = (if i = 0 then xl0 else st_x (steps s ! (i - 1))) \<and>
     pogs_data s = (if i = 0 then pd0 else run_Solve Solve (st_call (steps s ! (i - 1))))"

text \<open>What holds of the state in which the loop is left.\<close>

definition loop_post ::
  "solver \<Rightarrow> real \<Rightarrow> PogsData \<Rightarrow> real list \<Rightarrow> loop_state \<Rightarrow> bool" where
  "loop_post Solve lambda_max pd0 xl0 r \<longleftrightarrow>
     1 \<le> length (steps r) \<and> length (steps r) \<le> nlambda \<and>
     (\<forall>j<length (steps r). step_ok Solve lambda_max pd0 xl0 (steps r) j) \<and>
     (\<forall>j<length (steps r) - 1. \<not> st_stop (steps r ! j)) \<and>
     (length (steps r) < nlambda \<longrightarrow> st_stop (last (steps r))) \<and>
     pogs_data r = run_Solve Solve (st_call (last (steps r))) \<and>
     x_last r = (if st_stop (last (steps r)) then st_x_last (last (steps r))
                 else st_x (last (steps r)))"

declare path_loop.simps [simp del]

section \<open>The reductions and the stop test\<close>

lemma fold_max_upt:
  fixes f :: "nat \<Rightarrow> real"
  shows "fold (\<lambda>i a. max a (f i)) [0..<n] a0 = Max (insert a0 (f ` {..<n}))"
proof (induction n)
  case 0
  then show ?case by simp
next
  case (Suc n)
  have "fold (\<lambda>i a. max a (f i)) [0..<Suc n] a0 = max (Max (insert a0 (f ` {..<n}))) (f n)"
    using Suc by simp
  also have "\<dots> = Max (insert (f n) (insert a0 (f ` {..<n})))"
    by (simp add: max.commute)
  also have "insert (f n) (insert a0 (f ` {..<n})) = insert a0 (f ` {..<Suc n})"
    by (auto simp: lessThan_Suc)
  finally show ?case .
qed

lemma fold_add_upt:
  fixes f :: "nat \<Rightarrow> real"
  shows "fold (\<lambda>i a. a + f i) [0..<n] a0 = a0 + (\<Sum>i<n. f i)"
  by (induction n) simp_all

lemma MaxDiff_Max:
  "MaxDiff v1 v2 = Max (insert 0 ((\<lambda>j. \<bar>v1 ! j - v2 ! j\<bar>) ` {..<length v1}))"
  unfolding MaxDiff_def by (rule fold_max_upt)

lemma Asum_sum: "Asum v = (\<Sum>j<length v. \<bar>v ! j\<bar>)"
  unfolding Asum_def by (simp add: fold_add_upt)

text \<open>Starting the maximum at 0 changes nothing when there is an entry: they are absolute values.\<close>

lemma Max_insert_0_abs:
  fixes g :: "nat \<Rightarrow> real"
  assumes "0 < n"
  shows "Max (insert 0 ((\<lambda>j. \<bar>g j\<bar>) ` {..<n})) = Max ((\<lambda>j. \<bar>g j\<bar>) ` {..<n})"
proof -
  have ne: "(\<lambda>j. \<bar>g j\<bar>) ` {..<n} \<noteq> {}" using assms by auto
  have "\<bar>g 0\<bar> \<le> Max ((\<lambda>j. \<bar>g j\<bar>) ` {..<n})"
    using assms by (intro Max_ge) auto
  then have "0 \<le> Max ((\<lambda>j. \<bar>g j\<bar>) ` {..<n})"
    by linarith
  then show ?thesis using ne by (simp add: max_def)
qed


lemma MaxDiff_Nil: "MaxDiff [] v = 0"
  by (simp add: MaxDiff_def)

lemma Asum_Nil: "Asum [] = 0"
  by (simp add: Asum_def)

lemma MaxDiff_nonneg: "0 \<le> MaxDiff v1 v2"
  unfolding MaxDiff_Max by (rule Max_ge) simp_all

lemma stop_test_zero_sum: "Asum x = 0 \<Longrightarrow> \<not> stop_test x x_prev"
  using MaxDiff_nonneg [of x x_prev] by (simp add: stop_test_def)

lemma Asum_replicate_0: "Asum (replicate n 0) = 0"
  by (simp add: Asum_sum)

lemma stop_test_single: "stop_test [a] [c] \<longleftrightarrow> \<bar>a - c\<bar> < \<bar>a\<bar> / 1000"
  by (simp add: stop_test_def MaxDiff_def Asum_def)


text \<open>
  Claim C5, as stated: for \<open>x = x_prev = [0,0,0]\<close> the test says stop. It does not: the
  comparison on line 94 is strict, and \<open>0 < 0\<close> is false.
\<close>

theorem stop_test_zero_counterexample:
  "\<not> stop_test [0, 0, 0] [0, 0, 0]"
  by (simp add: MaxDiff_def Asum_def stop_test_def)

text \<open>
  Claim C5, amended: for \<open>x = x_prev = [0,0,0]\<close> the difference and the sum are both 0, the
  test is the comparison \<open>0 < 0\<close>, and its value is false: the path continues.
\<close>

theorem stop_test_zero_continues:
  "MaxDiff [0, 0, 0] [0, 0, 0] = 0 \<and> Asum [0, 0, 0] = 0 \<and>
   (stop_test [0, 0, 0] [0, 0, 0] \<longleftrightarrow> (0 :: real) < (1 / 1000) * 0) \<and>
   stop_test [0, 0, 0] [0, 0, 0] = False"
  by (simp add: MaxDiff_def Asum_def stop_test_def)





















section \<open>The computation of \<open>\<lambda>\<^sub>m\<^sub>a\<^sub>x\<close>\<close>

lemma fold_scatter_length:
  "length (fold (\<lambda>j u. u[k j := u ! k j + w j]) js u) = length u"
  by (induction js arbitrary: u) simp_all

lemma fold_scatter_nth:
  fixes u :: "real list"
  assumes "c < length u"
  shows "fold (\<lambda>j u. u[k j := u ! k j + w j]) js u ! c
         = u ! c + (\<Sum>j\<leftarrow>js. if k j = c then w j else 0)"
  using assms
proof (induction js arbitrary: u)
  case Nil
  then show ?case by simp
next
  case (Cons j js)
  let ?u' = "u[k j := u ! k j + w j]"
  have "c < length ?u'" using Cons.prems by simp
  then have "fold (\<lambda>j u. u[k j := u ! k j + w j]) js ?u' ! c
             = ?u' ! c + (\<Sum>j\<leftarrow>js. if k j = c then w j else 0)"
    by (rule Cons.IH)
  moreover have "?u' ! c = u ! c + (if k j = c then w j else 0)"
    using Cons.prems by (auto simp: nth_list_update)
  ultimately show ?case by simp
qed

lemma u_row_length: "length (u_row A b i u) = length u"
  unfolding u_row_def by (rule fold_scatter_length)

lemma u_row_nth:
  assumes "c < length u"
  shows "u_row A b i u ! c
         = u ! c + (\<Sum>j = row_ptr A ! i ..< row_ptr A ! (i + 1).
                      if col_ind A ! j = c then val A ! j * b ! i else 0)"
  unfolding u_row_def using assms
  by (simp add: fold_scatter_nth interv_sum_list_conv_sum_set_nat)

lemma fold_u_row_length: "length (fold (u_row A b) [0..<m] u) = length u"
  by (induction m) (simp_all add: u_row_length)

lemma fold_u_row_nth:
  assumes "c < length u"
  shows "fold (u_row A b) [0..<m] u ! c
         = u ! c + (\<Sum>i<m. \<Sum>j = row_ptr A ! i ..< row_ptr A ! (i + 1).
                      if col_ind A ! j = c then val A ! j * b ! i else 0)"
  using assms
  by (induction m) (simp_all add: u_row_nth fold_u_row_length)

lemma compute_u_spec: "compute_u m n A b = spec_Atb m n A b"
proof (rule nth_equalityI)
  show "length (compute_u m n A b) = length (spec_Atb m n A b)"
    by (simp add: compute_u_def spec_Atb_def fold_u_row_length)
next
  fix c
  assume "c < length (compute_u m n A b)"
  then have "c < n"
    by (simp add: compute_u_def fold_u_row_length)
  then show "compute_u m n A b ! c = spec_Atb m n A b ! c"
    by (simp add: compute_u_def spec_Atb_def fold_u_row_nth)
qed

lemma compute_lambda_max_Max:
  "compute_lambda_max n u = Max (insert 0 ((\<lambda>j. \<bar>u ! j\<bar>) ` {..<n}))"
  unfolding compute_lambda_max_def by (rule fold_max_upt)

text \<open>
  Claim C3. For a matrix in compressed-row form and a vector \<open>b\<close>, the accumulation
  \<open>u[col_ind[j]] += val[j] * b[i]\<close> over all nonzeros computes \<open>u = A\<^sup>t b\<close>, and \<open>lambda_max\<close>
  is the largest \<open>|u[j]|\<close> (the maximum starts at 0, which is its value when \<open>n = 0\<close>). For
  \<open>A = [[2,0],[0,3]]\<close> and \<open>b = [1,1]\<close> this gives \<open>u = [2,3]\<close> and \<open>lambda_max = 3\<close>.
\<close>

theorem lambda_max_refines_spec:
  "(csr_wf m n A b \<longrightarrow>
      compute_u m n A b = spec_Atb m n A b \<and>
      LassoPath_lambda_max m n A b
        = Max (insert 0 ((\<lambda>j. \<bar>spec_Atb m n A b ! j\<bar>) ` {..<n})) \<and>
      (0 < n \<longrightarrow> LassoPath_lambda_max m n A b
                     = Max ((\<lambda>j. \<bar>spec_Atb m n A b ! j\<bar>) ` {..<n}))) \<and>
   compute_u 2 2 \<lparr>val = [2, 3], row_ptr = [0, 1, 2], col_ind = [0, 1], nnz = 2\<rparr> [1, 1]
     = [2, 3] \<and>
   LassoPath_lambda_max 2 2 \<lparr>val = [2, 3], row_ptr = [0, 1, 2], col_ind = [0, 1], nnz = 2\<rparr>
     [1, 1] = 3"
proof -
  have ex: "compute_u 2 2 \<lparr>val = [2, 3], row_ptr = [0, 1, 2], col_ind = [0, 1], nnz = 2\<rparr>
              [1, 1] = [2, 3]"
    by (simp add: compute_u_def u_row_def upt_rec numeral_2_eq_2)
  have "compute_lambda_max 2 [2, 3] = 3"
    by (simp add: compute_lambda_max_def upt_rec numeral_2_eq_2)
  with ex show ?thesis
    by (simp add: LassoPath_lambda_max_def compute_u_spec [symmetric]
        compute_lambda_max_Max Max_insert_0_abs)
qed

theorem lambda_max_refines_spec_witness:
  "csr_wf 2 2 \<lparr>val = [2, 3], row_ptr = [0, 1, 2], col_ind = [0, 1], nnz = 2\<rparr> [1, 1] \<and>
   spec_Atb 2 2 \<lparr>val = [2, 3], row_ptr = [0, 1, 2], col_ind = [0, 1], nnz = 2\<rparr> [1, 1]
     = [2, 3] \<and>
   Max ((\<lambda>j. \<bar>[2, 3 :: real] ! j\<bar>) ` {..<2}) = 3"
proof -
  let ?A = "\<lparr>val = [2, 3], row_ptr = [0, 1, 2], col_ind = [0, 1], nnz = 2\<rparr>"
  note inst = lambda_max_refines_spec [of 2 2 ?A "[1, 1]"]
  have wf: "csr_wf 2 2 ?A [1, 1]"
    by (simp add: csr_wf_def lessThan_Suc numeral_2_eq_2)
  have pos: "(0 :: nat) < 2"
    by simp
  from inst wf have "compute_u 2 2 ?A [1, 1] = spec_Atb 2 2 ?A [1, 1]"
    by blast
  moreover from inst have "compute_u 2 2 ?A [1, 1] = [2, 3]"
    by blast
  ultimately have u: "spec_Atb 2 2 ?A [1, 1] = [2, 3]"
    by simp
  from inst wf pos have
    "LassoPath_lambda_max 2 2 ?A [1, 1] = Max ((\<lambda>j. \<bar>spec_Atb 2 2 ?A [1, 1] ! j\<bar>) ` {..<2})"
    by blast
  moreover from inst have "LassoPath_lambda_max 2 2 ?A [1, 1] = 3"
    by blast
  ultimately have "Max ((\<lambda>j. \<bar>[2, 3 :: real] ! j\<bar>) ` {..<2}) = 3"
    unfolding u by simp
  with wf u show ?thesis
    by blast
qed

section \<open>The schedule\<close>

lemma nlambda_pred: "real (nlambda - 1) = 99"
  by (simp add: nlambda_def)

text \<open>For a positive \<open>lambda_max\<close> every operation of the formula is on real numbers.\<close>

lemma lambda_at_pos:
  assumes "0 < l"
  shows "lambda_at l i
         = Fin (exp ((ln l * real (nlambda - 1 - i) + (1 / 100) * ln l * real i)
                     / real (nlambda - 1)))"
  using assms by (simp add: lambda_at_def nlambda_def)

lemma lambda_at_powr:
  assumes "0 < l" and "i < nlambda"
  shows "lambda_at l i = Fin (l powr (1 - real i / 100))"
proof -
  have a: "real (nlambda - 1 - i) = 99 - real i"
    using assms(2) by (simp add: nlambda_def)
  have "(ln l * (99 - real i) + (1 / 100) * ln l * real i) / 99 = (1 - real i / 100) * ln l"
    by (simp add: field_simps)
  then have "lambda_at l i = Fin (exp ((1 - real i / 100) * ln l))"
    unfolding lambda_at_pos [OF assms(1)] a nlambda_pred by simp
  then show ?thesis
    using assms(1) by (simp add: powr_def)
qed

lemma lambda_at_first: "0 < l \<Longrightarrow> lambda_at l 0 = Fin l"
  by (simp add: lambda_at_powr nlambda_def)

lemma lambda_at_last:
  assumes "0 < l"
  shows "lambda_at l (nlambda - 1) = Fin (l powr (1 / 100))"
proof -
  have "nlambda - 1 < nlambda"
    by (simp add: nlambda_def)
  then have "lambda_at l (nlambda - 1) = Fin (l powr (1 - real (nlambda - 1) / 100))"
    using assms by (rule lambda_at_powr [rotated])
  then show ?thesis
    unfolding nlambda_pred by simp
qed

text \<open>The last value of the schedule is \<open>lambda_max / 100\<close> for one value of \<open>lambda_max\<close> only.\<close>

lemma lambda_at_last_eq_iff:
  assumes "0 < l"
  shows "lambda_at l (nlambda - 1) = Fin (l / 100) \<longleftrightarrow> l powr (99 / 100) = 100"
proof -
  have pos: "0 < l powr (1 / 100)"
    using assms by simp
  have "l powr (1 / 100) * l powr (99 / 100) = l powr (1 / 100 + 99 / 100)"
    by (simp only: powr_add)
  then have split: "l = l powr (1 / 100) * l powr (99 / 100)"
    using assms by simp
  have "lambda_at l (nlambda - 1) = Fin (l / 100) \<longleftrightarrow> l powr (1 / 100) * 100 = l"
    unfolding lambda_at_last [OF assms] by (simp add: field_simps)
  also have "\<dots> \<longleftrightarrow> l powr (1 / 100) * 100 = l powr (1 / 100) * l powr (99 / 100)"
    using split by simp
  also have "\<dots> \<longleftrightarrow> l powr (99 / 100) = 100"
    using pos by auto
  finally show ?thesis .
qed

text \<open>A later value of the schedule is below an earlier one exactly when \<open>lambda_max > 1\<close>.\<close>

lemma lambda_at_less_iff:
  assumes "0 < l" and "i < j" and "j < nlambda"
  shows "lambda_at l i = Fin (l powr (1 - real i / 100)) \<and>
         lambda_at l j = Fin (l powr (1 - real j / 100)) \<and>
         (l powr (1 - real j / 100) < l powr (1 - real i / 100) \<longleftrightarrow> 1 < l)"
proof -
  have e: "1 - real j / 100 < 1 - real i / 100"
    using assms(2) by simp
  have "lambda_at l j = Fin (l powr (1 - real j / 100))"
       "lambda_at l i = Fin (l powr (1 - real i / 100))"
    using assms by (simp_all add: lambda_at_powr)
  moreover have "l powr (1 - real j / 100) < l powr (1 - real i / 100) \<longleftrightarrow> 1 < l"
  proof (cases "1 < l")
    case True
    then show ?thesis using e by (simp add: powr_less_cancel_iff)
  next
    case False
    then have "l \<le> 1" by simp
    have "ln l \<le> 0" using assms(1) \<open>l \<le> 1\<close> by simp
    then have "(1 - real i / 100) * ln l \<le> (1 - real j / 100) * ln l"
      using e by (simp add: mult_right_mono_neg)
    then have "l powr (1 - real i / 100) \<le> l powr (1 - real j / 100)"
      using assms(1) by (simp add: powr_def)
    then show ?thesis using False by simp
  qed
  ultimately show ?thesis by simp
qed

text \<open>
  At \<open>lambda_max = 0\<close> the logarithm is minus infinity. Its product with the zero factor is
  NaN at the first and at the last step; at the steps between, the exponential of minus
  infinity is 0.
\<close>

lemma lambda_at_zero:
  assumes "i < nlambda"
  shows "lambda_at 0 i = (if i = 0 \<or> i = nlambda - 1 then NaN else Fin 0)"
proof -
  have "real (nlambda - 1 - i) = 0 \<longleftrightarrow> i = nlambda - 1"
    using assms by (auto simp: nlambda_def)
  moreover have "0 \<le> real (nlambda - 1 - i)" and "(0 :: real) < real (nlambda - 1)"
    by (simp_all add: nlambda_def)
  ultimately show ?thesis
    by (auto simp: lambda_at_def)
qed

text \<open>
  Claim C1 says that for \<open>lambda_max > 0\<close> the schedule is strictly decreasing, starts at
  \<open>lambda_max\<close> and ends at \<open>lambda_max / 100\<close>. The formula of lines 85 and 86 multiplies
  the logarithm by \<open>1e-2\<close> where the interpolation towards \<open>lambda_max / 100\<close> needs the
  logarithm of \<open>1e-2 * lambda_max\<close>: it computes \<open>lambda_max powr (1 - i / 100)\<close>, which
  ends at \<open>lambda_max powr (1 / 100)\<close> and decreases only for \<open>lambda_max > 1\<close>. For the
  one-by-one matrix \<open>[[1]]\<close> and \<open>b = [1/2]\<close> the driver gets \<open>lambda_max = 1/2\<close>; the
  schedule starts at \<open>1/2\<close>, increases, and ends above \<open>1/2\<close>, not at \<open>1/200\<close>.
\<close>

theorem schedule_at_half:
  "LassoPath_lambda_max 1 1 \<lparr>val = [1], row_ptr = [0, 1], col_ind = [0], nnz = 1\<rparr> [1 / 2] = 1 / 2 \<and>
   lambda_at (1 / 2) 0 = Fin (1 / 2) \<and>
   lambda_at (1 / 2) 1 = Fin ((1 / 2) powr (99 / 100)) \<and>
   1 / 2 < (1 / 2 :: real) powr (99 / 100) \<and>
   lambda_at (1 / 2) (nlambda - 1) = Fin ((1 / 2) powr (1 / 100)) \<and>
   1 / 2 < (1 / 2 :: real) powr (1 / 100) \<and>
   lambda_at (1 / 2) (nlambda - 1) \<noteq> Fin ((1 / 100) * (1 / 2))"
proof -
  have lm: "LassoPath_lambda_max 1 1 \<lparr>val = [1], row_ptr = [0, 1], col_ind = [0], nnz = 1\<rparr> [1 / 2]
            = 1 / 2"
    by (simp add: LassoPath_lambda_max_def compute_lambda_max_def compute_u_def u_row_def)
  have first: "lambda_at (1 / 2) 0 = Fin (1 / 2)"
    by (simp add: lambda_at_first)
  have second: "lambda_at (1 / 2) 1 = Fin ((1 / 2) powr (99 / 100))"
    using lambda_at_powr [of "1 / 2" 1] by (simp add: nlambda_def)
  have "(1 / 2 :: real) powr 1 < (1 / 2) powr (99 / 100)"
    by (rule powr_less_mono') simp_all
  then have incr: "1 / 2 < (1 / 2 :: real) powr (99 / 100)"
    by simp
  have last: "lambda_at (1 / 2) (nlambda - 1) = Fin ((1 / 2) powr (1 / 100))"
    by (rule lambda_at_last) simp
  have "(1 / 2 :: real) powr 1 < (1 / 2) powr (1 / 100)"
    by (rule powr_less_mono') simp_all
  then have big: "1 / 2 < (1 / 2 :: real) powr (1 / 100)"
    by simp
  then have ne: "lambda_at (1 / 2) (nlambda - 1) \<noteq> Fin ((1 / 100) * (1 / 2))"
    unfolding last by simp
  show ?thesis
    by (intro conjI) (fact lm first second incr last big ne)+
qed

section \<open>The invariant of the path loop\<close>

lemma step_ok_append:
  assumes "j < length t"
  shows "step_ok Solve lambda_max pd0 xl0 (t @ [e]) j \<longleftrightarrow> step_ok Solve lambda_max pd0 xl0 t j"
proof -
  have "(t @ [e]) ! j = t ! j" using assms by (simp add: nth_append)
  moreover have "(t @ [e]) ! (j - 1) = t ! (j - 1)" using assms by (simp add: nth_append)
  ultimately show ?thesis by (simp add: step_ok_def)
qed

text \<open>The log entry written by the loop body at counter i.\<close>

lemma step_ok_new:
  assumes inv: "loop_inv Solve lambda_max pd0 xl0 i s"
  defines "pd1 \<equiv> set_penalty (lambda_at lambda_max i) (pogs_data s)"
  defines "e \<equiv> \<lparr>st_lambda = lambda_at lambda_max i, st_call = pd1,
                 st_x = pd_x (run_Solve Solve pd1), st_x_last = x_last s,
                 st_stop = stop_test (pd_x (run_Solve Solve pd1)) (x_last s)\<rparr>"
  shows "step_ok Solve lambda_max pd0 xl0 (steps s @ [e]) i"
proof -
  have len: "length (steps s) = i" using inv by (simp add: loop_inv_def)
  have xl: "x_last s = (if i = 0 then xl0 else st_x (steps s ! (i - 1)))"
    using inv by (simp add: loop_inv_def)
  have pd: "pogs_data s = (if i = 0 then pd0 else run_Solve Solve (st_call (steps s ! (i - 1))))"
    using inv by (simp add: loop_inv_def)
  have at_i: "(steps s @ [e]) ! i = e" using len by (simp add: nth_append)
  have before: "0 < i \<Longrightarrow> (steps s @ [e]) ! (i - 1) = steps s ! (i - 1)"
    using len by (simp add: nth_append)
  show ?thesis
    unfolding step_ok_def at_i
    using before xl pd by (cases "i = 0") (simp_all add: e_def pd1_def)
qed

lemma loop_inv_step:
  assumes inv: "loop_inv Solve lambda_max pd0 xl0 i s"
  defines "pd1 \<equiv> set_penalty (lambda_at lambda_max i) (pogs_data s)"
  defines "e \<equiv> \<lparr>st_lambda = lambda_at lambda_max i, st_call = pd1,
                 st_x = pd_x (run_Solve Solve pd1), st_x_last = x_last s,
                 st_stop = stop_test (pd_x (run_Solve Solve pd1)) (x_last s)\<rparr>"
  assumes cont: "\<not> stop_test (pd_x (run_Solve Solve pd1)) (x_last s)"
  shows "loop_inv Solve lambda_max pd0 xl0 (i + 1)
           (s\<lparr>pogs_data := run_Solve Solve pd1, steps := steps s @ [e],
              x_last := pd_x (run_Solve Solve pd1)\<rparr>)"
proof -
  have len: "length (steps s) = i" using inv by (simp add: loop_inv_def)
  have old: "\<forall>j<i. step_ok Solve lambda_max pd0 xl0 (steps s) j \<and> \<not> st_stop (steps s ! j)"
    using inv by (simp add: loop_inv_def)
  have new: "step_ok Solve lambda_max pd0 xl0 (steps s @ [e]) i"
    unfolding e_def pd1_def using inv by (rule step_ok_new)
  have at_i: "(steps s @ [e]) ! i = e" using len by (simp add: nth_append)
  have all: "step_ok Solve lambda_max pd0 xl0 (steps s @ [e]) j \<and> \<not> st_stop ((steps s @ [e]) ! j)"
    if "j < i + 1" for j
  proof (cases "j < i")
    case True
    then show ?thesis using old len by (simp add: step_ok_append nth_append)
  next
    case False
    with that have "j = i" by simp
    then show ?thesis using new at_i cont by (simp add: e_def)
  qed
  show ?thesis
    unfolding loop_inv_def using len all at_i by (simp add: e_def)
qed

lemma loop_post_stop:
  assumes inv: "loop_inv Solve lambda_max pd0 xl0 i s" and "i < nlambda"
  defines "pd1 \<equiv> set_penalty (lambda_at lambda_max i) (pogs_data s)"
  defines "e \<equiv> \<lparr>st_lambda = lambda_at lambda_max i, st_call = pd1,
                 st_x = pd_x (run_Solve Solve pd1), st_x_last = x_last s,
                 st_stop = stop_test (pd_x (run_Solve Solve pd1)) (x_last s)\<rparr>"
  assumes stop: "stop_test (pd_x (run_Solve Solve pd1)) (x_last s)"
  shows "loop_post Solve lambda_max pd0 xl0
           (s\<lparr>pogs_data := run_Solve Solve pd1, steps := steps s @ [e]\<rparr>)"
proof -
  have len: "length (steps s) = i" using inv by (simp add: loop_inv_def)
  have old: "\<forall>j<i. step_ok Solve lambda_max pd0 xl0 (steps s) j \<and> \<not> st_stop (steps s ! j)"
    using inv by (simp add: loop_inv_def)
  have new: "step_ok Solve lambda_max pd0 xl0 (steps s @ [e]) i"
    unfolding e_def pd1_def using inv by (rule step_ok_new)
  have ok: "step_ok Solve lambda_max pd0 xl0 (steps s @ [e]) j" if "j < i + 1" for j
  proof (cases "j < i")
    case True
    then show ?thesis using old len by (simp add: step_ok_append)
  next
    case False
    with that have "j = i" by simp
    then show ?thesis using new by simp
  qed
  have quiet: "\<not> st_stop ((steps s @ [e]) ! j)" if "j < i" for j
    using that old len by (simp add: nth_append)
  show ?thesis
    unfolding loop_post_def using len ok quiet stop \<open>i < nlambda\<close> by (simp add: e_def)
qed

lemma loop_post_exhausted:
  assumes inv: "loop_inv Solve lambda_max pd0 xl0 nlambda s"
  shows "loop_post Solve lambda_max pd0 xl0 s"
proof -
  have pos: "0 < nlambda" by (simp add: nlambda_def)
  have len: "length (steps s) = nlambda" using inv by (simp add: loop_inv_def)
  then have ne: "steps s \<noteq> []" using pos by auto
  have lst: "last (steps s) = steps s ! (nlambda - 1)"
    using ne len by (simp add: last_conv_nth)
  have "\<not> st_stop (steps s ! (nlambda - 1))"
    using inv pos by (simp add: loop_inv_def)
  then show ?thesis
    unfolding loop_post_def lst using inv pos by (simp add: loop_inv_def)
qed

lemma path_loop_post:
  assumes "loop_inv Solve lambda_max pd0 xl0 i s" and "i \<le> nlambda"
  shows "loop_post Solve lambda_max pd0 xl0 (path_loop Solve lambda_max i s)"
  using assms
proof (induction "nlambda - i" arbitrary: i s)
  case 0
  then have "i = nlambda" by simp
  then show ?case
    using "0.prems"(1) by (simp add: path_loop.simps loop_post_exhausted)
next
  case (Suc k)
  then have lt: "i < nlambda" by simp
  let ?pd1 = "set_penalty (lambda_at lambda_max i) (pogs_data s)"
  show ?case
  proof (cases "stop_test (pd_x (run_Solve Solve ?pd1)) (x_last s)")
    case True
    then show ?thesis
      using loop_post_stop [OF Suc.prems(1) lt] lt
      by (simp add: path_loop.simps [of _ _ i] Let_def)
  next
    case False
    have "k = nlambda - (i + 1)" using Suc.hyps(2) by simp
    moreover note loop_inv_step [OF Suc.prems(1) False]
    moreover have "i + 1 \<le> nlambda" using lt by simp
    ultimately have "loop_post Solve lambda_max pd0 xl0 (path_loop Solve lambda_max (i + 1)
        (s\<lparr>pogs_data := run_Solve Solve ?pd1,
           steps := steps s @ [\<lparr>st_lambda = lambda_at lambda_max i, st_call = ?pd1,
                 st_x = pd_x (run_Solve Solve ?pd1), st_x_last = x_last s,
                 st_stop = stop_test (pd_x (run_Solve Solve ?pd1)) (x_last s)\<rparr>],
           x_last := pd_x (run_Solve Solve ?pd1)\<rparr>))"
      by (rule Suc.hyps(1))
    then show ?thesis
      using False lt by (simp add: path_loop.simps [of _ _ i] Let_def)
  qed
qed

lemma loop_inv_init: "loop_inv Solve lambda_max (pogs_data s) (x_last s) 0 (s\<lparr>steps := []\<rparr>)"
  by (simp add: loop_inv_def)

section \<open>What the driver leaves unchanged\<close>

lemma fold_snoc_upt: "fold (\<lambda>i f. f @ [h i]) [0..<n] acc = acc @ map h [0..<n]"
  by (induction n) simp_all

lemma build_f_map:
  "build_f m b = map (\<lambda>i. \<lparr>kind = kSquare, scale = Fin 1, offset = b ! i\<rparr>) [0..<m]"
  by (simp add: build_f_def fold_snoc_upt)

lemma build_g_replicate: "build_g n = replicate n (FunctionObj_of_kind kAbs)"
  by (simp add: build_g_def fold_snoc_upt map_replicate_trivial)

lemma fold_set_scale_length:
  "length (fold (\<lambda>i g. g[i := (g ! i)\<lparr>scale := l\<rparr>]) [0..<k] g) = length g"
  by (induction k) simp_all

lemma fold_set_scale_nth:
  assumes "c < length g"
  shows "fold (\<lambda>i g. g[i := (g ! i)\<lparr>scale := l\<rparr>]) [0..<k] g ! c
         = (if c < k then (g ! c)\<lparr>scale := l\<rparr> else g ! c)"
  using assms
proof (induction k)
  case 0
  then show ?case by simp
next
  case (Suc k)
  then show ?case
    by (auto simp: nth_list_update fold_set_scale_length less_Suc_eq)
qed

lemma fold_set_scale_all:
  "fold (\<lambda>i g. g[i := (g ! i)\<lparr>scale := l\<rparr>]) [0..<length g] g = map (\<lambda>d. d\<lparr>scale := l\<rparr>) g"
  by (rule nth_equalityI) (simp_all add: fold_set_scale_length fold_set_scale_nth)

lemma set_penalty_frame:
  "pd_A (set_penalty l pd) = pd_A pd" "pd_m (set_penalty l pd) = pd_m pd"
  "pd_n (set_penalty l pd) = pd_n pd" "pd_x (set_penalty l pd) = pd_x pd"
  "pd_y (set_penalty l pd) = pd_y pd" "pd_f (set_penalty l pd) = pd_f pd"
  by (simp_all add: set_penalty_def)

lemma set_penalty_g:
  "length (pd_g pd) = pd_n pd \<Longrightarrow> pd_g (set_penalty l pd) = map (\<lambda>d. d\<lparr>scale := l\<rparr>) (pd_g pd)"
  using fold_set_scale_all [of l "pd_g pd"] by (simp add: set_penalty_def)

lemma length_write_buf: "length (write_buf buf new) = length buf"
  by (simp add: write_buf_def)

lemma run_Solve_frame:
  "pd_A (run_Solve Solve pd) = pd_A pd" "pd_m (run_Solve Solve pd) = pd_m pd"
  "pd_n (run_Solve Solve pd) = pd_n pd" "pd_f (run_Solve Solve pd) = pd_f pd"
  "pd_g (run_Solve Solve pd) = pd_g pd"
  "length (pd_x (run_Solve Solve pd)) = length (pd_x pd)"
  by (simp_all add: run_Solve_def length_write_buf)

text \<open>Along a log whose entries are right, the solver is always invoked on the same
  matrix and row descriptors, and on the initial column descriptors with the scale
  replaced.\<close>

lemma log_frame:
  assumes ok: "\<forall>j<length t. step_ok Solve lambda_max pd0 xl0 t j"
    and g0: "length (pd_g pd0) = pd_n pd0"
    and j: "j < length t"
  shows "pd_A (st_call (t ! j)) = pd_A pd0 \<and> pd_m (st_call (t ! j)) = pd_m pd0 \<and>
         pd_n (st_call (t ! j)) = pd_n pd0 \<and> pd_f (st_call (t ! j)) = pd_f pd0 \<and>
         pd_g (st_call (t ! j)) = map (\<lambda>d. d\<lparr>scale := lambda_at lambda_max j\<rparr>) (pd_g pd0) \<and>
         length (pd_x (st_call (t ! j))) = length (pd_x pd0)"
  using j
proof (induction j)
  case 0
  then have "st_call (t ! 0) = set_penalty (lambda_at lambda_max 0) pd0"
    using ok by (simp add: step_ok_def)
  then show ?case
    using g0 by (simp add: set_penalty_frame set_penalty_g)
next
  case (Suc j)
  let ?prev = "run_Solve Solve (st_call (t ! j))"
  have IH: "pd_A (st_call (t ! j)) = pd_A pd0 \<and> pd_m (st_call (t ! j)) = pd_m pd0 \<and>
         pd_n (st_call (t ! j)) = pd_n pd0 \<and> pd_f (st_call (t ! j)) = pd_f pd0 \<and>
         pd_g (st_call (t ! j)) = map (\<lambda>d. d\<lparr>scale := lambda_at lambda_max j\<rparr>) (pd_g pd0) \<and>
         length (pd_x (st_call (t ! j))) = length (pd_x pd0)"
    using Suc by simp
  have call: "st_call (t ! Suc j) = set_penalty (lambda_at lambda_max (Suc j)) ?prev"
    using ok Suc.prems by (simp add: step_ok_def)
  have len: "length (pd_g ?prev) = pd_n ?prev"
    using IH g0 by (simp add: run_Solve_frame)
  have "pd_g (st_call (t ! Suc j))
        = map (\<lambda>d. d\<lparr>scale := lambda_at lambda_max (Suc j)\<rparr>) (pd_g ?prev)"
    unfolding call using len by (rule set_penalty_g)
  also have "\<dots> = map (\<lambda>d. d\<lparr>scale := lambda_at lambda_max (Suc j)\<rparr>) (pd_g pd0)"
    using IH by (simp add: run_Solve_frame comp_def)
  finally have g: "pd_g (st_call (t ! Suc j))
        = map (\<lambda>d. d\<lparr>scale := lambda_at lambda_max (Suc j)\<rparr>) (pd_g pd0)" .
  show ?case
    using IH g by (simp add: call set_penalty_frame run_Solve_frame)
qed

lemma log_x_length:
  assumes ok: "\<forall>j<length t. step_ok Solve lambda_max pd0 xl0 t j"
    and g0: "length (pd_g pd0) = pd_n pd0"
    and j: "j < length t"
  shows "length (st_x (t ! j)) = length (pd_x pd0)"
proof -
  have "st_x (t ! j) = pd_x (run_Solve Solve (st_call (t ! j)))"
    using ok j by (simp add: step_ok_def)
  then show ?thesis
    using log_frame [OF ok g0 j] by (simp add: run_Solve_frame)
qed

section \<open>The runs of the driver\<close>

lemma LassoPath_post:
  "loop_post Solve (LassoPath_lambda_max m n A b)
     (pogs_data (LassoPath_init T m n A b)) (x_last (LassoPath_init T m n A b))
     (LassoPath T Solve m n A b)"
proof -
  have "loop_inv Solve (LassoPath_lambda_max m n A b)
          (pogs_data (LassoPath_init T m n A b)) (x_last (LassoPath_init T m n A b))
          0 (LassoPath_init T m n A b)"
    by (simp add: loop_inv_def LassoPath_init_def)
  then show ?thesis
    unfolding LassoPath_def by (rule path_loop_post) simp
qed

lemma init_fields:
  "pd_A (pogs_data (LassoPath_init T m n A b)) = A"
  "pd_m (pogs_data (LassoPath_init T m n A b)) = m"
  "pd_n (pogs_data (LassoPath_init T m n A b)) = n"
  "pd_x (pogs_data (LassoPath_init T m n A b)) = replicate n 0"
  "pd_f (pogs_data (LassoPath_init T m n A b)) = build_f m b"
  "pd_g (pogs_data (LassoPath_init T m n A b)) = build_g n"
  "x_last (LassoPath_init T m n A b) = replicate n (numeric_limits_max T)"
  by (simp_all add: LassoPath_init_def)

lemma LassoPath_steps_ok:
  "j < length (steps (LassoPath T Solve m n A b)) \<Longrightarrow>
   step_ok Solve (LassoPath_lambda_max m n A b)
     (pogs_data (LassoPath_init T m n A b)) (x_last (LassoPath_init T m n A b))
     (steps (LassoPath T Solve m n A b)) j"
  using LassoPath_post [of Solve m n A b T] by (simp add: loop_post_def)

lemma LassoPath_frame:
  assumes "j < length (steps (LassoPath T Solve m n A b))"
  shows "pd_A (st_call (steps (LassoPath T Solve m n A b) ! j)) = A \<and>
         pd_f (st_call (steps (LassoPath T Solve m n A b) ! j)) = build_f m b \<and>
         pd_g (st_call (steps (LassoPath T Solve m n A b) ! j))
           = map (\<lambda>d. d\<lparr>scale := lambda_at (LassoPath_lambda_max m n A b) j\<rparr>) (build_g n) \<and>
         length (pd_x (st_call (steps (LassoPath T Solve m n A b) ! j))) = n"
proof -
  have ok: "\<forall>j<length (steps (LassoPath T Solve m n A b)).
      step_ok Solve (LassoPath_lambda_max m n A b)
        (pogs_data (LassoPath_init T m n A b)) (x_last (LassoPath_init T m n A b))
        (steps (LassoPath T Solve m n A b)) j"
    by (simp add: LassoPath_steps_ok)
  have g0: "length (pd_g (pogs_data (LassoPath_init T m n A b)))
            = pd_n (pogs_data (LassoPath_init T m n A b))"
    by (simp add: init_fields build_g_replicate)
  show ?thesis
    using log_frame [OF ok g0 assms] by (simp add: init_fields)
qed

lemma LassoPath_length:
  "1 \<le> length (steps (LassoPath T Solve m n A b))"
  "length (steps (LassoPath T Solve m n A b)) \<le> nlambda"
  using LassoPath_post [of Solve m n A b T] by (simp_all add: loop_post_def)

lemma LassoPath_nonempty: "0 < length (steps (LassoPath T Solve m n A b))"
  using LassoPath_length(1) [of T Solve m n A b] by (simp add: Suc_le_eq)

lemma LassoPath_last:
  "last (steps (LassoPath T Solve m n A b))
   = steps (LassoPath T Solve m n A b) ! (length (steps (LassoPath T Solve m n A b)) - 1)"
  using LassoPath_length(1) [of T Solve m n A b] by (intro last_conv_nth) auto

lemma LassoPath_quiet:
  "j < length (steps (LassoPath T Solve m n A b)) - 1 \<Longrightarrow>
   \<not> st_stop (steps (LassoPath T Solve m n A b) ! j)"
  using LassoPath_post [of Solve m n A b T] by (simp add: loop_post_def)

lemma LassoPath_early:
  "length (steps (LassoPath T Solve m n A b)) < nlambda \<Longrightarrow>
   st_stop (steps (LassoPath T Solve m n A b) ! (length (steps (LassoPath T Solve m n A b)) - 1))"
  using LassoPath_post [of Solve m n A b T] by (simp add: loop_post_def LassoPath_last)

lemma LassoPath_final:
  "pogs_data (LassoPath T Solve m n A b)
   = run_Solve Solve (st_call (last (steps (LassoPath T Solve m n A b))))"
  "x_last (LassoPath T Solve m n A b)
   = (if st_stop (last (steps (LassoPath T Solve m n A b)))
      then st_x_last (last (steps (LassoPath T Solve m n A b)))
      else st_x (last (steps (LassoPath T Solve m n A b))))"
  using LassoPath_post [of Solve m n A b T] by (simp_all add: loop_post_def)

lemma LassoPath_step:
  assumes "j < length (steps (LassoPath T Solve m n A b))"
  shows "st_lambda (steps (LassoPath T Solve m n A b) ! j)
           = lambda_at (LassoPath_lambda_max m n A b) j"
    and "st_x (steps (LassoPath T Solve m n A b) ! j)
           = pd_x (run_Solve Solve (st_call (steps (LassoPath T Solve m n A b) ! j)))"
    and "st_stop (steps (LassoPath T Solve m n A b) ! j)
           = stop_test (st_x (steps (LassoPath T Solve m n A b) ! j))
               (st_x_last (steps (LassoPath T Solve m n A b) ! j))"
    and "st_x_last (steps (LassoPath T Solve m n A b) ! j)
           = (if j = 0 then replicate n (numeric_limits_max T)
              else st_x (steps (LassoPath T Solve m n A b) ! (j - 1)))"
    and "pd_x (st_call (steps (LassoPath T Solve m n A b) ! j))
           = (if j = 0 then replicate n 0
              else st_x (steps (LassoPath T Solve m n A b) ! (j - 1)))"
proof -
  let ?t = "steps (LassoPath T Solve m n A b)"
  note ok = LassoPath_steps_ok [OF assms, unfolded step_ok_def]
  show "st_lambda (?t ! j) = lambda_at (LassoPath_lambda_max m n A b) j"
    and "st_x (?t ! j) = pd_x (run_Solve Solve (st_call (?t ! j)))"
    and "st_stop (?t ! j) = stop_test (st_x (?t ! j)) (st_x_last (?t ! j))"
    and "st_x_last (?t ! j)
           = (if j = 0 then replicate n (numeric_limits_max T) else st_x (?t ! (j - 1)))"
    using ok by (simp_all add: init_fields)
  show "pd_x (st_call (?t ! j)) = (if j = 0 then replicate n 0 else st_x (?t ! (j - 1)))"
  proof (cases "j = 0")
    case True
    then show ?thesis using ok by (simp add: set_penalty_frame init_fields)
  next
    case False
    then have "j - 1 < length ?t" using assms by simp
    then have "st_x (?t ! (j - 1)) = pd_x (run_Solve Solve (st_call (?t ! (j - 1))))"
      using LassoPath_steps_ok [of "j - 1" T Solve m n A b] by (simp add: step_ok_def)
    then show ?thesis using ok False by (simp add: set_penalty_frame)
  qed
qed

lemma LassoPath_x_length:
  assumes "j < length (steps (LassoPath T Solve m n A b))"
  shows "length (st_x (steps (LassoPath T Solve m n A b) ! j)) = n"
  using LassoPath_frame [OF assms] LassoPath_step(2) [OF assms]
  by (simp add: run_Solve_frame)

lemma LassoPath_returns_last_x:
  "pd_x (pogs_data (LassoPath T Solve m n A b)) = st_x (last (steps (LassoPath T Solve m n A b)))"
proof -
  have "length (steps (LassoPath T Solve m n A b)) - 1 < length (steps (LassoPath T Solve m n A b))"
    using LassoPath_length(1) [of T Solve m n A b] by simp
  then show ?thesis
    using LassoPath_step(2) [of "length (steps (LassoPath T Solve m n A b)) - 1" T Solve m n A b]
    by (simp add: LassoPath_final(1) LassoPath_last)
qed

text \<open>A run in which the test fires at no step has all \<open>nlambda\<close> steps.\<close>

lemma LassoPath_no_stop_full:
  assumes "\<forall>j<length (steps (LassoPath T Solve m n A b)).
             \<not> st_stop (steps (LassoPath T Solve m n A b) ! j)"
  shows "length (steps (LassoPath T Solve m n A b)) = nlambda"
proof (rule ccontr)
  assume "length (steps (LassoPath T Solve m n A b)) \<noteq> nlambda"
  then have lt: "length (steps (LassoPath T Solve m n A b)) < nlambda"
    using LassoPath_length(2) [of T Solve m n A b] by simp
  have "length (steps (LassoPath T Solve m n A b)) - 1 < length (steps (LassoPath T Solve m n A b))"
    using LassoPath_length(1) [of T Solve m n A b] by simp
  then show False
    using LassoPath_early [OF lt] assms by blast
qed

lemma LassoPath_zero_sum_full:
  assumes "\<forall>j<length (steps (LassoPath T Solve m n A b)).
             Asum (st_x (steps (LassoPath T Solve m n A b) ! j)) = 0"
  shows "length (steps (LassoPath T Solve m n A b)) = nlambda"
proof (rule LassoPath_no_stop_full, intro allI impI)
  fix j
  assume j: "j < length (steps (LassoPath T Solve m n A b))"
  then have "Asum (st_x (steps (LassoPath T Solve m n A b) ! j)) = 0"
    using assms by simp
  then show "\<not> st_stop (steps (LassoPath T Solve m n A b) ! j)"
    using LassoPath_step(3) [OF j] by (simp add: stop_test_zero_sum)
qed

lemma numeric_limits_max_ge: "2 \<le> numeric_limits_max T"
  by (cases T) simp_all

section \<open>Three runs\<close>

text \<open>A solver that leaves the buffers as they are.\<close>

lemma idle_solver_x:
  assumes "j < length (steps (LassoPath T (\<lambda>pd. (pd_x pd, pd_y pd)) m n A b))"
  shows "st_x (steps (LassoPath T (\<lambda>pd. (pd_x pd, pd_y pd)) m n A b) ! j) = replicate n 0"
  using assms
proof (induction j)
  case 0
  then show ?case
    using LassoPath_step(2) [OF 0] LassoPath_step(5) [OF 0]
    by (simp add: run_Solve_def write_buf_def)
next
  case (Suc j)
  then have "st_x (steps (LassoPath T (\<lambda>pd. (pd_x pd, pd_y pd)) m n A b) ! j) = replicate n 0"
    by simp
  then show ?case
    using LassoPath_step(2) [OF Suc.prems] LassoPath_step(5) [OF Suc.prems]
    by (simp add: run_Solve_def write_buf_def)
qed

text \<open>A solver that writes \<open>x = [1]\<close> at every call: the test fires at step 1.\<close>

lemma constant_solver_run:
  fixes T :: T_kind
  defines "t \<equiv> steps (LassoPath T (\<lambda>pd. ([1], [0])) 1 1
         \<lparr>val = [1], row_ptr = [0, 1], col_ind = [0], nnz = 1\<rparr> [1])"
  shows "st_x (t ! 0) = [1]" and "\<not> st_stop (t ! 0)" and "1 < length t"
    and "st_x (t ! 1) = [1]" and "st_stop (t ! 1)"
proof -
  let ?S = "\<lambda>pd :: PogsData. ([1 :: real], [0 :: real])"
  have x: "st_x (t ! j) = [1]" if "j < length t" for j
  proof -
    have "length (pd_x (st_call (t ! j))) = 1"
      using that LassoPath_frame [of j T ?S 1 1 _ "[1]"] by (simp add: t_def)
    then show ?thesis
      using that LassoPath_step(2) [of j T ?S 1 1 _ "[1]"]
      by (simp add: t_def run_Solve_def write_buf_def)
  qed
  have zero: "0 < length t"
    unfolding t_def by (rule LassoPath_nonempty)
  show x0: "st_x (t ! 0) = [1]"
    using zero by (rule x)
  have "st_x_last (t ! 0) = [numeric_limits_max T]"
    using zero LassoPath_step(4) [of 0 T ?S 1 1 _ "[1]"] by (simp add: t_def)
  moreover have "\<not> stop_test [1] [numeric_limits_max T]"
    unfolding stop_test_single using numeric_limits_max_ge [of T] by simp
  ultimately show q0: "\<not> st_stop (t ! 0)"
    using zero x0 LassoPath_step(3) [of 0 T ?S 1 1 _ "[1]"] by (simp add: t_def)
  show one: "1 < length t"
  proof (rule ccontr)
    assume "\<not> 1 < length t"
    then have len: "length t = 1" using zero by linarith
    then have "length t < nlambda" by (simp add: nlambda_def)
    then have "st_stop (t ! (length t - 1))"
      unfolding t_def by (rule LassoPath_early)
    then show False using q0 len by simp
  qed
  show x1: "st_x (t ! 1) = [1]"
    using one by (rule x)
  have "st_x_last (t ! 1) = [1]"
    using one x0 LassoPath_step(4) [of 1 T ?S 1 1 _ "[1]"] by (simp add: t_def)
  moreover have "stop_test [1] [1]"
    unfolding stop_test_single by simp
  ultimately show "st_stop (t ! 1)"
    using one x1 LassoPath_step(3) [of 1 T ?S 1 1 _ "[1]"] by (simp add: t_def)
qed

text \<open>A solver that moves \<open>x[0]\<close> up by one at each call until it is 99.\<close>

lemma counting_solver_x:
  fixes T :: T_kind
  defines "t \<equiv> steps (LassoPath T (\<lambda>pd. ([min (pd_x pd ! 0 + 1) 99], pd_y pd)) 1 1
         \<lparr>val = [1], row_ptr = [0, 1], col_ind = [0], nnz = 1\<rparr> [1])"
  assumes "j < length t"
  shows "st_x (t ! j) = [min (real j + 1) 99]"
  using assms(2)
proof (induction j)
  case 0
  then have "pd_x (st_call (t ! 0)) = [0]"
    using LassoPath_step(5) [of 0 T _ 1 1 _ "[1]"] by (simp add: t_def)
  then show ?case
    using 0 LassoPath_step(2) [of 0 T _ 1 1 _ "[1]"]
    by (simp add: t_def run_Solve_def write_buf_def)
next
  case (Suc j)
  then have "st_x (t ! j) = [min (real j + 1) 99]"
    by simp
  then have "pd_x (st_call (t ! Suc j)) = [min (real j + 1) 99]"
    using Suc.prems LassoPath_step(5) [of "Suc j" T _ 1 1 _ "[1]"] by (simp add: t_def)
  then have "st_x (t ! Suc j) = [min (min (real j + 1) 99 + 1) 99]"
    using Suc.prems LassoPath_step(2) [of "Suc j" T _ 1 1 _ "[1]"]
    by (simp add: t_def run_Solve_def write_buf_def)
  moreover have "min (min (real j + 1) 99 + 1) 99 = min (real (Suc j) + 1) 99"
    by (simp add: min_def)
  ultimately show ?case
    by simp
qed

lemma counting_solver_quiet:
  fixes T :: T_kind
  defines "t \<equiv> steps (LassoPath T (\<lambda>pd. ([min (pd_x pd ! 0 + 1) 99], pd_y pd)) 1 1
         \<lparr>val = [1], row_ptr = [0, 1], col_ind = [0], nnz = 1\<rparr> [1])"
  assumes "j < length t" and "j < 99"
  shows "\<not> st_stop (t ! j)"
proof -
  have x: "st_x (t ! j) = [real j + 1]"
    using counting_solver_x [of j T] assms by (simp add: min_def)
  have test: "st_stop (t ! j) = stop_test (st_x (t ! j)) (st_x_last (t ! j))"
    using assms(2) LassoPath_step(3) [of j T _ 1 1 _ "[1]"] by (simp add: t_def)
  show ?thesis
  proof (cases "j = 0")
    case True
    then have xl: "st_x_last (t ! j) = [numeric_limits_max T]"
      using assms(2) LassoPath_step(4) [of j T _ 1 1 _ "[1]"] by (simp add: t_def)
    have "real j = 0"
      using True by simp
    then show ?thesis
      unfolding test x xl stop_test_single using numeric_limits_max_ge [of T] by simp
  next
    case False
    then have "j - 1 < length t"
      using assms(2) by simp
    then have "st_x (t ! (j - 1)) = [min (real (j - 1) + 1) 99]"
      using counting_solver_x [of "j - 1" T] by (simp add: t_def)
    then have "st_x (t ! (j - 1)) = [real j]"
      using False assms(3) by (simp add: min_def)
    then have xl: "st_x_last (t ! j) = [real j]"
      using False assms(2) LassoPath_step(4) [of j T _ 1 1 _ "[1]"] by (simp add: t_def)
    show ?thesis
      unfolding test x xl stop_test_single using assms(3) by simp
  qed
qed

section \<open>The descriptors along the path\<close>

text \<open>
  Claim C8. At every path step the solver is invoked on problem data in which the column
  descriptors are the initial ones with the scale overwritten by the \<open>\<lambda>\<close> of that step and
  nothing else changed, the row descriptors are the \<open>m\<close> descriptors (Square, 1, \<open>b[row]\<close>)
  built before the loop, and the matrix is \<open>A\<close>; the same row descriptors and matrix are
  in the data when the driver returns. (The vector \<open>b\<close> is a local of the driver that the
  loop does not mention; it is an argument of the model.)
\<close>

theorem penalty_scale_only_mutation:
  assumes "j < length (steps (LassoPath T Solve m n A b))"
  shows "let s = steps (LassoPath T Solve m n A b) ! j; pd = st_call s in
           st_lambda s = lambda_at (LassoPath_lambda_max m n A b) j \<and>
           st_x s = pd_x (run_Solve Solve pd) \<and>
           pd_g pd = map (\<lambda>d. d\<lparr>scale := st_lambda s\<rparr>) (build_g n) \<and>
           length (pd_g pd) = n \<and>
           (\<forall>d\<in>set (pd_g pd). kind d = kAbs \<and> scale d = st_lambda s) \<and>
           pd_f pd = build_f m b \<and> length (pd_f pd) = m \<and>
           (\<forall>r<m. pd_f pd ! r = \<lparr>kind = kSquare, scale = Fin 1, offset = b ! r\<rparr>) \<and>
           pd_A pd = A \<and>
           pd_f (pogs_data (LassoPath T Solve m n A b)) = build_f m b \<and>
           pd_A (pogs_data (LassoPath T Solve m n A b)) = A"
proof -
  let ?t = "steps (LassoPath T Solve m n A b)"
  let ?l = "lambda_at (LassoPath_lambda_max m n A b) j"
  have lam: "st_lambda (?t ! j) = ?l"
    using assms by (rule LassoPath_step(1))
  have x: "st_x (?t ! j) = pd_x (run_Solve Solve (st_call (?t ! j)))"
    using assms by (rule LassoPath_step(2))
  note fr = LassoPath_frame [OF assms]
  have g: "pd_g (st_call (?t ! j)) = map (\<lambda>d. d\<lparr>scale := ?l\<rparr>) (build_g n)"
    using fr by simp
  have glen: "length (pd_g (st_call (?t ! j))) = n"
    unfolding g by (simp add: build_g_replicate)
  have gall: "\<forall>d\<in>set (pd_g (st_call (?t ! j))). kind d = kAbs \<and> scale d = ?l"
    unfolding g by (auto simp: build_g_replicate FunctionObj_of_kind_def)
  have f: "pd_f (st_call (?t ! j)) = build_f m b" and A: "pd_A (st_call (?t ! j)) = A"
    using fr by simp_all
  have flen: "length (build_f m b) = m"
    by (simp add: build_f_map)
  have fnth: "\<forall>r<m. build_f m b ! r = \<lparr>kind = kSquare, scale = Fin 1, offset = b ! r\<rparr>"
    by (simp add: build_f_map)
  have lastj: "length ?t - 1 < length ?t"
    using LassoPath_length(1) [of T Solve m n A b] by simp
  have fin: "pd_f (pogs_data (LassoPath T Solve m n A b)) = build_f m b"
            "pd_A (pogs_data (LassoPath T Solve m n A b)) = A"
    using LassoPath_frame [OF lastj]
    by (simp_all add: LassoPath_final(1) LassoPath_last run_Solve_frame)
  show ?thesis
    unfolding Let_def using lam x g glen gall f A flen fnth fin by simp
qed

theorem penalty_scale_only_mutation_witness:
  "0 < length (steps (LassoPath T_double (\<lambda>pd. ([1], [0])) 1 1
         \<lparr>val = [1], row_ptr = [0, 1], col_ind = [0], nnz = 1\<rparr> [1 / 2])) \<and>
   st_lambda (steps (LassoPath T_double (\<lambda>pd. ([1], [0])) 1 1
         \<lparr>val = [1], row_ptr = [0, 1], col_ind = [0], nnz = 1\<rparr> [1 / 2]) ! 0) = Fin (1 / 2) \<and>
   pd_g (st_call (steps (LassoPath T_double (\<lambda>pd. ([1], [0])) 1 1
         \<lparr>val = [1], row_ptr = [0, 1], col_ind = [0], nnz = 1\<rparr> [1 / 2]) ! 0))
     = [\<lparr>kind = kAbs, scale = Fin (1 / 2), offset = 0\<rparr>] \<and>
   pd_f (st_call (steps (LassoPath T_double (\<lambda>pd. ([1], [0])) 1 1
         \<lparr>val = [1], row_ptr = [0, 1], col_ind = [0], nnz = 1\<rparr> [1 / 2]) ! 0))
     = [\<lparr>kind = kSquare, scale = Fin 1, offset = 1 / 2\<rparr>]"
proof -
  let ?A = "\<lparr>val = [1], row_ptr = [0, 1], col_ind = [0], nnz = 1\<rparr>"
  let ?R = "LassoPath T_double (\<lambda>pd. ([1], [0])) 1 1 ?A [1 / 2]"
  have h: "0 < length (steps ?R)"
    by (rule LassoPath_nonempty)
  have lm: "LassoPath_lambda_max 1 1 ?A [1 / 2] = 1 / 2"
    by (simp add: LassoPath_lambda_max_def compute_lambda_max_def compute_u_def u_row_def)
  have l0: "lambda_at (1 / 2) 0 = Fin (1 / 2)"
    by (simp add: lambda_at_first)
  have g: "build_g 1 = [\<lparr>kind = kAbs, scale = Fin 1, offset = 0\<rparr>]"
    by (simp add: build_g_def FunctionObj_of_kind_def)
  have f: "build_f 1 [1 / 2] = [\<lparr>kind = kSquare, scale = Fin 1, offset = 1 / 2\<rparr>]"
    by (simp add: build_f_def)
  show ?thesis
    using h penalty_scale_only_mutation [OF h]
    unfolding Let_def lm l0 g f by simp
qed

section \<open>The number of steps and the stop test\<close>



text \<open>
  Claim C6, as stated: the driver stops before completing all \<open>nlambda\<close> steps exactly when
  the test fires at some step. With a solver whose \<open>x[0]\<close> is 1, 2, ..., 99, 99 over the
  calls, the test fires for the first time at step 99: the test has fired, and all 100
  solver invocations have been made.
\<close>

theorem early_stop_counterexample:
  "length (steps (LassoPath T_double (\<lambda>pd. ([min (pd_x pd ! 0 + 1) 99], pd_y pd)) 1 1
         \<lparr>val = [1], row_ptr = [0, 1], col_ind = [0], nnz = 1\<rparr> [1])) = 100 \<and>
   st_stop (steps (LassoPath T_double (\<lambda>pd. ([min (pd_x pd ! 0 + 1) 99], pd_y pd)) 1 1
         \<lparr>val = [1], row_ptr = [0, 1], col_ind = [0], nnz = 1\<rparr> [1]) ! 99)"
proof -
  let ?S = "\<lambda>pd. ([min (pd_x pd ! 0 + 1) 99], pd_y pd)"
  let ?A = "\<lparr>val = [1], row_ptr = [0, 1], col_ind = [0], nnz = 1\<rparr>"
  let ?t = "steps (LassoPath T_double ?S 1 1 ?A [1])"
  have len: "length ?t = 100"
  proof (rule ccontr)
    assume "length ?t \<noteq> 100"
    then have lt: "length ?t < nlambda"
      using LassoPath_length(2) [of T_double ?S 1 1 ?A "[1]"] by (simp add: nlambda_def)
    then have "st_stop (?t ! (length ?t - 1))"
      by (rule LassoPath_early)
    moreover have "length ?t - 1 < length ?t"
      using LassoPath_nonempty [of T_double ?S 1 1 ?A "[1]"] by simp
    moreover have "length ?t - 1 < 99"
      using lt LassoPath_nonempty [of T_double ?S 1 1 ?A "[1]"] by (simp add: nlambda_def)
    ultimately show False
      using counting_solver_quiet [of "length ?t - 1" T_double] by simp
  qed
  have "st_x (?t ! 99) = [99]"
    using counting_solver_x [of 99 T_double] len by simp
  moreover have "st_x (?t ! 98) = [99]"
    using counting_solver_x [of 98 T_double] len by simp
  then have "st_x_last (?t ! 99) = [99]"
    using len LassoPath_step(4) [of 99 T_double ?S 1 1 ?A "[1]"] by simp
  moreover have "stop_test [99] [99]"
    unfolding stop_test_single by simp
  ultimately have "st_stop (?t ! 99)"
    using len LassoPath_step(3) [of 99 T_double ?S 1 1 ?A "[1]"] by simp
  with len show ?thesis
    by simp
qed

text \<open>
  Claim C6, amended. Every run has at least one and at most \<open>nlambda = 100\<close> path steps. The
  test can fire only at the last step performed. The run has fewer than \<open>nlambda\<close> steps
  exactly when the test fires at a step before the last of the schedule (\<open>j < nlambda - 1\<close>);
  when the test fires at no step the run has all \<open>nlambda\<close> steps.
\<close>

theorem path_length_and_early_stop:
  "1 \<le> length (steps (LassoPath T Solve m n A b)) \<and>
   length (steps (LassoPath T Solve m n A b)) \<le> nlambda \<and> nlambda = 100 \<and>
   (\<forall>j<length (steps (LassoPath T Solve m n A b)).
      st_stop (steps (LassoPath T Solve m n A b) ! j)
      = stop_test (st_x (steps (LassoPath T Solve m n A b) ! j))
          (st_x_last (steps (LassoPath T Solve m n A b) ! j))) \<and>
   (\<forall>j<length (steps (LassoPath T Solve m n A b)).
      st_stop (steps (LassoPath T Solve m n A b) ! j)
      \<longrightarrow> j = length (steps (LassoPath T Solve m n A b)) - 1) \<and>
   (length (steps (LassoPath T Solve m n A b)) < nlambda
    \<longleftrightarrow> (\<exists>j<nlambda - 1. j < length (steps (LassoPath T Solve m n A b)) \<and>
                st_stop (steps (LassoPath T Solve m n A b) ! j))) \<and>
   ((\<forall>j<length (steps (LassoPath T Solve m n A b)).
       \<not> st_stop (steps (LassoPath T Solve m n A b) ! j))
    \<longrightarrow> length (steps (LassoPath T Solve m n A b)) = nlambda)"
proof -
  let ?t = "steps (LassoPath T Solve m n A b)"
  have lo: "1 \<le> length ?t" and hi: "length ?t \<le> nlambda"
    by (rule LassoPath_length)+
  have test: "\<forall>j<length ?t. st_stop (?t ! j) = stop_test (st_x (?t ! j)) (st_x_last (?t ! j))"
    by (simp add: LassoPath_step(3))
  have n100: "nlambda = 100"
    by (rule nlambda_def)
  have "j = length ?t - 1" if "j < length ?t" "st_stop (?t ! j)" for j
  proof (rule ccontr)
    assume "j \<noteq> length ?t - 1"
    then have "j < length ?t - 1" using that(1) by simp
    then have "\<not> st_stop (?t ! j)" by (rule LassoPath_quiet)
    then show False using that(2) by simp
  qed
  then have only_last: "\<forall>j<length ?t. st_stop (?t ! j) \<longrightarrow> j = length ?t - 1"
    by blast
  have early: "length ?t < nlambda \<longleftrightarrow> (\<exists>j<nlambda - 1. j < length ?t \<and> st_stop (?t ! j))"
  proof
    assume lt: "length ?t < nlambda"
    then have "st_stop (?t ! (length ?t - 1))" by (rule LassoPath_early)
    moreover have "length ?t - 1 < nlambda - 1" "length ?t - 1 < length ?t"
      using lt lo by simp_all
    ultimately show "\<exists>j<nlambda - 1. j < length ?t \<and> st_stop (?t ! j)" by blast
  next
    assume "\<exists>j<nlambda - 1. j < length ?t \<and> st_stop (?t ! j)"
    then obtain j where j: "j < nlambda - 1" "j < length ?t" "st_stop (?t ! j)" by blast
    then have "j = length ?t - 1" using only_last by blast
    then show "length ?t < nlambda" using j(1) lo by simp
  qed
  have full: "(\<forall>j<length ?t. \<not> st_stop (?t ! j)) \<longrightarrow> length ?t = nlambda"
    by (intro impI) (rule LassoPath_no_stop_full)
  show ?thesis
    by (intro conjI) (fact lo hi n100 test only_last early full)+
qed

theorem path_length_and_early_stop_witness:
  "1 < length (steps (LassoPath T_float (\<lambda>pd. ([1], [0])) 1 1
         \<lparr>val = [1], row_ptr = [0, 1], col_ind = [0], nnz = 1\<rparr> [1])) \<and>
   1 < nlambda - 1 \<and>
   st_stop (steps (LassoPath T_float (\<lambda>pd. ([1], [0])) 1 1
         \<lparr>val = [1], row_ptr = [0, 1], col_ind = [0], nnz = 1\<rparr> [1]) ! 1) \<and>
   length (steps (LassoPath T_float (\<lambda>pd. ([1], [0])) 1 1
         \<lparr>val = [1], row_ptr = [0, 1], col_ind = [0], nnz = 1\<rparr> [1])) = 2 \<and>
   length (steps (LassoPath T_float (\<lambda>pd. ([1], [0])) 1 1
         \<lparr>val = [1], row_ptr = [0, 1], col_ind = [0], nnz = 1\<rparr> [1])) < nlambda"
proof -
  let ?t = "steps (LassoPath T_float (\<lambda>pd. ([1], [0])) 1 1
         \<lparr>val = [1], row_ptr = [0, 1], col_ind = [0], nnz = 1\<rparr> [1])"
  note inst = path_length_and_early_stop [of T_float "\<lambda>pd. ([1], [0])" 1 1
         "\<lparr>val = [1], row_ptr = [0, 1], col_ind = [0], nnz = 1\<rparr>" "[1]"]
  have one: "1 < length ?t"
    by (rule constant_solver_run(3))
  have fired: "st_stop (?t ! 1)"
    by (rule constant_solver_run(5))
  have small: "1 < nlambda - 1"
    by (simp add: nlambda_def)
  note only_last = inst [THEN conjunct2, THEN conjunct2, THEN conjunct2, THEN conjunct2,
      THEN conjunct1, rule_format]
  have "1 = length ?t - 1"
    using one fired by (rule only_last)
  then have len: "length ?t = 2"
    using one by simp
  note early = inst [THEN conjunct2, THEN conjunct2, THEN conjunct2, THEN conjunct2,
      THEN conjunct2, THEN conjunct1]
  have "\<exists>j<nlambda - 1. j < length ?t \<and> st_stop (?t ! j)"
    using small one fired by (intro exI [of _ 1]) simp
  then have "length ?t < nlambda"
    by (rule early [THEN iffD2])
  with one small fired len show ?thesis
    by (intro conjI)
qed

text \<open>
  Claim C10. When \<open>n = 0\<close>, \<open>x\<close> and \<open>x_last\<close> are empty at every step, \<open>MaxDiff\<close> and \<open>Asum\<close>
  are both 0, the test \<open>0 < 0\<close> fires at no step, and the driver performs all \<open>nlambda\<close>
  steps.
\<close>

theorem empty_solution_runs_full_schedule:
  "MaxDiff [] [] = 0 \<and> Asum [] = 0 \<and> \<not> stop_test [] [] \<and>
   (\<forall>j<length (steps (LassoPath T Solve m 0 A b)).
      st_x (steps (LassoPath T Solve m 0 A b) ! j) = [] \<and>
      st_x_last (steps (LassoPath T Solve m 0 A b) ! j) = [] \<and>
      \<not> st_stop (steps (LassoPath T Solve m 0 A b) ! j)) \<and>
   length (steps (LassoPath T Solve m 0 A b)) = nlambda \<and> nlambda = 100"
proof -
  let ?t = "steps (LassoPath T Solve m 0 A b)"
  have x: "st_x (?t ! j) = []" if "j < length ?t" for j
    using LassoPath_x_length [OF that] by simp
  have xl: "st_x_last (?t ! j) = []" if "j < length ?t" for j
    using LassoPath_step(4) [OF that] that x [of "j - 1"] by (cases "j = 0") simp_all
  have quiet: "\<not> st_stop (?t ! j)" if "j < length ?t" for j
    using LassoPath_step(3) [OF that] x [OF that] by (simp add: stop_test_zero_sum Asum_Nil)
  have "length ?t = nlambda"
    using quiet by (intro LassoPath_no_stop_full) simp
  then show ?thesis
    using x xl quiet by (simp add: MaxDiff_Nil Asum_Nil stop_test_def nlambda_def)
qed

theorem empty_solution_runs_full_schedule_witness:
  "0 < length (steps (LassoPath T_double (\<lambda>pd. ([], [])) 0 0
         \<lparr>val = [], row_ptr = [0], col_ind = [], nnz = 0\<rparr> [])) \<and>
   \<not> st_stop (steps (LassoPath T_double (\<lambda>pd. ([], [])) 0 0
         \<lparr>val = [], row_ptr = [0], col_ind = [], nnz = 0\<rparr> []) ! 0) \<and>
   length (steps (LassoPath T_double (\<lambda>pd. ([], [])) 0 0
         \<lparr>val = [], row_ptr = [0], col_ind = [], nnz = 0\<rparr> [])) = 100"
proof -
  let ?R = "LassoPath T_double (\<lambda>pd. ([], [])) 0 0
         \<lparr>val = [], row_ptr = [0], col_ind = [], nnz = 0\<rparr> []"
  note inst = empty_solution_runs_full_schedule [of T_double "\<lambda>pd. ([], [])" 0
         "\<lparr>val = [], row_ptr = [0], col_ind = [], nnz = 0\<rparr>" "[]"]
  from inst have len: "length (steps ?R) = 100"
    by simp
  then have pos: "0 < length (steps ?R)"
    by simp
  with inst have "\<not> st_stop (steps ?R ! 0)"
    by blast
  with len pos show ?thesis
    by simp
qed

text \<open>
  Claim C2, as stated: when \<open>lambda_max = 0\<close> the driver evaluates no logarithm, skips the
  schedule and returns immediately with \<open>x = 0\<close>. The driver has no test of \<open>lambda_max\<close>.
  For the matrix \<open>[[1]]\<close> and \<open>b = [0]\<close>, where \<open>lambda_max = 0\<close>, and a solver that leaves
  \<open>x = 0\<close> in place, the logarithm of 0 makes the \<open>\<lambda>\<close> of step 0 NaN, and the driver goes
  through the loop 100 times, invoking the solver each time, before it returns with
  \<open>x = 0\<close>.
\<close>

theorem zero_lambda_max_counterexample:
  "LassoPath_lambda_max 1 1 \<lparr>val = [1], row_ptr = [0, 1], col_ind = [0], nnz = 1\<rparr> [0] = 0 \<and>
   st_lambda (steps (LassoPath T_double (\<lambda>pd. (pd_x pd, pd_y pd)) 1 1
         \<lparr>val = [1], row_ptr = [0, 1], col_ind = [0], nnz = 1\<rparr> [0]) ! 0) = NaN \<and>
   length (steps (LassoPath T_double (\<lambda>pd. (pd_x pd, pd_y pd)) 1 1
         \<lparr>val = [1], row_ptr = [0, 1], col_ind = [0], nnz = 1\<rparr> [0])) = 100 \<and>
   pd_x (pogs_data (LassoPath T_double (\<lambda>pd. (pd_x pd, pd_y pd)) 1 1
         \<lparr>val = [1], row_ptr = [0, 1], col_ind = [0], nnz = 1\<rparr> [0])) = [0]"
proof -
  let ?A = "\<lparr>val = [1], row_ptr = [0, 1], col_ind = [0], nnz = 1\<rparr>"
  let ?R = "LassoPath T_double (\<lambda>pd. (pd_x pd, pd_y pd)) 1 1 ?A [0]"
  have lm: "LassoPath_lambda_max 1 1 ?A [0] = 0"
    by (simp add: LassoPath_lambda_max_def compute_lambda_max_def compute_u_def u_row_def)
  have "0 < length (steps ?R)"
    by (rule LassoPath_nonempty)
  then have "st_lambda (steps ?R ! 0) = lambda_at (LassoPath_lambda_max 1 1 ?A [0]) 0"
    by (rule LassoPath_step(1))
  then have nan: "st_lambda (steps ?R ! 0) = NaN"
    unfolding lm by (simp add: lambda_at_zero nlambda_def)
  have "Asum (st_x (steps ?R ! j)) = 0" if "j < length (steps ?R)" for j
    unfolding idle_solver_x [OF that] by (rule Asum_replicate_0)
  then have "\<forall>j<length (steps ?R). Asum (st_x (steps ?R ! j)) = 0"
    by blast
  then have "length (steps ?R) = nlambda"
    by (rule LassoPath_zero_sum_full)
  then have len: "length (steps ?R) = 100"
    by (simp add: nlambda_def)
  then have "length (steps ?R) - 1 < length (steps ?R)"
    by simp
  then have "st_x (steps ?R ! (length (steps ?R) - 1)) = replicate 1 0"
    by (rule idle_solver_x)
  then have x: "pd_x (pogs_data ?R) = [0]"
    by (simp add: LassoPath_returns_last_x LassoPath_last)
  show ?thesis
    by (intro conjI) (fact lm nan len x)+
qed

text \<open>
  Claim C2, amended: when \<open>lambda_max = 0\<close>, that is when \<open>A\<^sup>t b = 0\<close>, the driver runs the
  path loop as for any other input. The logarithm of line 85 is evaluated at 0 and is
  minus infinity, which makes \<open>\<lambda>\<close> NaN at the first and at the last step of the schedule
  and 0 at the steps between. The driver performs at least one step; at every step it
  stores that \<open>\<lambda>\<close> as the scale of every column descriptor and invokes the solver; the \<open>x\<close>
  it returns is the one the last solve left; and when every solve leaves \<open>x = 0\<close>, the test
  fires at no step and all \<open>nlambda\<close> steps are performed.
\<close>

theorem zero_lambda_max_runs_path:
  assumes "LassoPath_lambda_max m n A b = 0"
  shows "(\<forall>j<n. compute_u m n A b ! j = 0) \<and>
         log_T (Fin (LassoPath_lambda_max m n A b)) = NegInf \<and>
         1 \<le> length (steps (LassoPath T Solve m n A b)) \<and>
         (\<forall>j<length (steps (LassoPath T Solve m n A b)).
            st_lambda (steps (LassoPath T Solve m n A b) ! j)
              = (if j = 0 \<or> j = nlambda - 1 then NaN else Fin 0) \<and>
            (\<forall>d\<in>set (pd_g (st_call (steps (LassoPath T Solve m n A b) ! j))).
               scale d = st_lambda (steps (LassoPath T Solve m n A b) ! j)) \<and>
            st_x (steps (LassoPath T Solve m n A b) ! j)
              = pd_x (run_Solve Solve (st_call (steps (LassoPath T Solve m n A b) ! j)))) \<and>
         pd_x (pogs_data (LassoPath T Solve m n A b))
           = st_x (last (steps (LassoPath T Solve m n A b))) \<and>
         ((\<forall>j<length (steps (LassoPath T Solve m n A b)).
             st_x (steps (LassoPath T Solve m n A b) ! j) = replicate n 0)
          \<longrightarrow> (\<forall>j<length (steps (LassoPath T Solve m n A b)).
                 \<not> st_stop (steps (LassoPath T Solve m n A b) ! j)) \<and>
               length (steps (LassoPath T Solve m n A b)) = nlambda)"
proof -
  let ?t = "steps (LassoPath T Solve m n A b)"
  have u: "\<forall>j<n. compute_u m n A b ! j = 0"
  proof (intro allI impI)
    fix j
    assume "j < n"
    then have "\<bar>compute_u m n A b ! j\<bar>
          \<le> Max (insert 0 ((\<lambda>j. \<bar>compute_u m n A b ! j\<bar>) ` {..<n}))"
      by (intro Max_ge) auto
    then have "\<bar>compute_u m n A b ! j\<bar> \<le> 0"
      using assms by (simp add: LassoPath_lambda_max_def compute_lambda_max_Max)
    then show "compute_u m n A b ! j = 0"
      by simp
  qed
  have lg: "log_T (Fin (LassoPath_lambda_max m n A b)) = NegInf"
    unfolding assms by simp
  have len: "1 \<le> length ?t"
    by (rule LassoPath_length(1))
  have step: "st_lambda (?t ! j) = (if j = 0 \<or> j = nlambda - 1 then NaN else Fin 0) \<and>
      (\<forall>d\<in>set (pd_g (st_call (?t ! j))). scale d = st_lambda (?t ! j)) \<and>
      st_x (?t ! j) = pd_x (run_Solve Solve (st_call (?t ! j)))"
    if j: "j < length ?t" for j
  proof -
    have "j < nlambda"
      using j LassoPath_length(2) [of T Solve m n A b] by simp
    then have "lambda_at 0 j = (if j = 0 \<or> j = nlambda - 1 then NaN else Fin 0)"
      by (rule lambda_at_zero)
    then have lam: "st_lambda (?t ! j) = (if j = 0 \<or> j = nlambda - 1 then NaN else Fin 0)"
      using LassoPath_step(1) [OF j] assms by simp
    have "pd_g (st_call (?t ! j))
          = map (\<lambda>d. d\<lparr>scale := lambda_at (LassoPath_lambda_max m n A b) j\<rparr>) (build_g n)"
      using LassoPath_frame [OF j] by simp
    then have "\<forall>d\<in>set (pd_g (st_call (?t ! j))). scale d = st_lambda (?t ! j)"
      using LassoPath_step(1) [OF j] by auto
    then show ?thesis
      using lam LassoPath_step(2) [OF j] by simp
  qed
  then have steps: "\<forall>j<length ?t.
      st_lambda (?t ! j) = (if j = 0 \<or> j = nlambda - 1 then NaN else Fin 0) \<and>
      (\<forall>d\<in>set (pd_g (st_call (?t ! j))). scale d = st_lambda (?t ! j)) \<and>
      st_x (?t ! j) = pd_x (run_Solve Solve (st_call (?t ! j)))"
    by blast
  have ret: "pd_x (pogs_data (LassoPath T Solve m n A b)) = st_x (last ?t)"
    by (rule LassoPath_returns_last_x)
  have zero: "(\<forall>j<length ?t. st_x (?t ! j) = replicate n 0)
      \<longrightarrow> (\<forall>j<length ?t. \<not> st_stop (?t ! j)) \<and> length ?t = nlambda"
  proof
    assume z: "\<forall>j<length ?t. st_x (?t ! j) = replicate n 0"
    have quiet: "\<forall>j<length ?t. \<not> st_stop (?t ! j)"
    proof (intro allI impI)
      fix j
      assume j: "j < length ?t"
      then have "Asum (st_x (?t ! j)) = 0"
        using z by (simp add: Asum_replicate_0)
      then show "\<not> st_stop (?t ! j)"
        using LassoPath_step(3) [OF j] by (simp add: stop_test_zero_sum)
    qed
    then have "length ?t = nlambda"
      by (rule LassoPath_no_stop_full)
    with quiet show "(\<forall>j<length ?t. \<not> st_stop (?t ! j)) \<and> length ?t = nlambda"
      by (rule conjI)
  qed
  show ?thesis
    by (intro conjI) (fact u lg len steps ret zero)+
qed

theorem zero_lambda_max_runs_path_witness:
  "LassoPath_lambda_max 1 1 \<lparr>val = [1], row_ptr = [0, 1], col_ind = [0], nnz = 1\<rparr> [0] = 0 \<and>
   0 < length (steps (LassoPath T_float (\<lambda>pd. (pd_x pd, pd_y pd)) 1 1
         \<lparr>val = [1], row_ptr = [0, 1], col_ind = [0], nnz = 1\<rparr> [0])) \<and>
   st_lambda (steps (LassoPath T_float (\<lambda>pd. (pd_x pd, pd_y pd)) 1 1
         \<lparr>val = [1], row_ptr = [0, 1], col_ind = [0], nnz = 1\<rparr> [0]) ! 0) = NaN \<and>
   \<not> st_stop (steps (LassoPath T_float (\<lambda>pd. (pd_x pd, pd_y pd)) 1 1
         \<lparr>val = [1], row_ptr = [0, 1], col_ind = [0], nnz = 1\<rparr> [0]) ! 0) \<and>
   length (steps (LassoPath T_float (\<lambda>pd. (pd_x pd, pd_y pd)) 1 1
         \<lparr>val = [1], row_ptr = [0, 1], col_ind = [0], nnz = 1\<rparr> [0])) = nlambda"
proof -
  let ?A = "\<lparr>val = [1], row_ptr = [0, 1], col_ind = [0], nnz = 1\<rparr>"
  let ?R = "LassoPath T_float (\<lambda>pd. (pd_x pd, pd_y pd)) 1 1 ?A [0]"
  have lm: "LassoPath_lambda_max 1 1 ?A [0] = 0"
    by (simp add: LassoPath_lambda_max_def compute_lambda_max_def compute_u_def u_row_def)
  have zero: "\<forall>j<length (steps ?R). st_x (steps ?R ! j) = replicate 1 0"
    by (intro allI impI) (rule idle_solver_x)
  note inst = zero_lambda_max_runs_path [OF lm, of T_float "\<lambda>pd. (pd_x pd, pd_y pd)"]
  have pos: "0 < length (steps ?R)"
    by (rule LassoPath_nonempty)
  note at = inst [THEN conjunct2, THEN conjunct2, THEN conjunct2, THEN conjunct1,
      rule_format, OF pos]
  have nan: "st_lambda (steps ?R ! 0) = NaN"
    using at [THEN conjunct1] by simp
  note full = inst [THEN conjunct2, THEN conjunct2, THEN conjunct2, THEN conjunct2,
      THEN conjunct2, THEN mp, OF zero]
  have quiet: "\<not> st_stop (steps ?R ! 0)"
    using full [THEN conjunct1] pos by blast
  have len: "length (steps ?R) = nlambda"
    by (rule full [THEN conjunct2])
  show ?thesis
    by (intro conjI) (fact lm pos nan quiet len)+
qed

section \<open>The previous iterate\<close>




end
